theory Spec2Isabelle
  imports Complex_Main
begin

section \<open>Values of the source language\<close>

text \<open>
  The package manager of \<^verbatim>\<open>distribution_center.py\<close> works on Python floats, Python
  strings and the rows of four SQLite tables. A Python float is a finite number, one of
  the two infinities, or NaN; the program only compares floats with the literals
  \<^verbatim>\<open>50.0\<close> and \<^verbatim>\<open>5.0\<close> and stores them, so a finite float is kept as the real number
  it denotes. A comparison with NaN is false.
\<close>

datatype pyfloat = Finite real | PosInf | NegInf | NaN

fun float_gt :: "pyfloat \<Rightarrow> real \<Rightarrow> bool" where
  "float_gt (Finite x) c = (x > c)"
| "float_gt PosInf c = True"
| "float_gt NegInf c = False"
| "float_gt NaN c = False"

fun float_lt :: "pyfloat \<Rightarrow> real \<Rightarrow> bool" where
  "float_lt (Finite x) c = (x < c)"
| "float_lt PosInf c = False"
| "float_lt NegInf c = True"
| "float_lt NaN c = False"

text \<open>
  Strings are lists of characters with code points below 256. \<^verbatim>\<open>str.lower()\<close> maps the
  upper-case letters of that range (\<^verbatim>\<open>A\<close> to \<^verbatim>\<open>Z\<close>, and the Latin-1 capitals 192 to 222
  except the multiplication sign 215) to the code point 32 above, and leaves every other
  character as it is.
\<close>

definition lower_char :: "char \<Rightarrow> char" where
  "lower_char c =
     (let n = (of_char c :: nat)
      in if (65 \<le> n \<and> n \<le> 90) \<or> (192 \<le> n \<and> n \<le> 222 \<and> n \<noteq> 215)
         then char_of (n + 32) else c)"

definition lower :: "string \<Rightarrow> string" where
  "lower s = map lower_char s"

text \<open>\<^verbatim>\<open>sub in s\<close>: \<^verbatim>\<open>sub\<close> occurs in \<^verbatim>\<open>s\<close> as a contiguous run of characters.\<close>

fun startswith :: "string \<Rightarrow> string \<Rightarrow> bool" where
  "startswith s [] = True"
| "startswith [] (c # sub) = False"
| "startswith (d # s) (c # sub) = (d = c \<and> startswith s sub)"

fun str_in :: "string \<Rightarrow> string \<Rightarrow> bool" where
  "str_in sub [] = (sub = [])"
| "str_in sub (d # s) = (startswith (d # s) sub \<or> str_in sub s)"

text \<open>\<^verbatim>\<open>s.count(c)\<close> for a single character \<^verbatim>\<open>c\<close>.\<close>

definition str_count :: "string \<Rightarrow> char \<Rightarrow> nat" where
  "str_count s c = length (filter (\<lambda>d. d = c) s)"

text \<open>
  The comma-separated components of a string, as \<^verbatim>\<open>s.split(',')\<close> gives them: one more
  than there are commas. This function is not part of the source; it states what
  ``comma-separated component'' means in the specification.
\<close>

fun split_comma :: "string \<Rightarrow> string list" where
  "split_comma [] = [[]]"
| "split_comma (c # s) =
     (if c = CHR '','' then [] # split_comma s
      else (case split_comma s of [] \<Rightarrow> [[c]] | w # ws \<Rightarrow> (c # w) # ws))"

section \<open>Categorisation\<close>

text \<open>
  \<^verbatim>\<open>PackageManager.categorize_package\<close>: a cascade of \<^verbatim>\<open>if ... return\<close> statements,
  so the first condition that holds decides the result, a pair of category id and name.
\<close>

definition categorize_package :: "pyfloat \<Rightarrow> string \<Rightarrow> string \<Rightarrow> nat \<times> string" where
  "categorize_package weight priority destination =
     (if lower priority = ''express'' then (2, ''Express'')
      else if str_in ''international'' (lower destination)
              \<or> str_count destination (CHR '','') > 1 then (5, ''International'')
      else if float_gt weight 50.0 then (4, ''Heavy'')
      else if float_lt weight 5.0 then (3, ''Fragile'')
      else (1, ''Standard''))"

section \<open>The database\<close>

text \<open>
  The four tables of \<^verbatim>\<open>DistributionCenterDB.initialize_database\<close>, each a list of rows
  in insertion order. The columns \<^verbatim>\<open>created_at\<close>, \<^verbatim>\<open>received_at\<close> and
  \<^verbatim>\<open>timestamp\<close> (filled from the clock by the storage engine) and the row id of an
  audit entry are left out: no operation reads them. A nullable column that the program
  may leave empty is an \<open>option\<close>.
\<close>

record category =
  cat_id :: nat
  cat_name :: string
  cat_description :: string
  cat_zone :: string
  cat_max_weight :: real
  cat_priority_level :: nat

record location =
  loc_id :: nat
  loc_code :: string
  loc_zone :: string
  loc_aisle :: nat
  loc_shelf :: nat
  loc_category_id :: nat
  is_occupied :: bool

record package =
  pkg_id :: nat
  pkg_barcode :: string
  pkg_weight :: pyfloat
  pkg_length :: pyfloat
  pkg_width :: pyfloat
  pkg_height :: pyfloat
  pkg_destination :: string
  pkg_priority :: string
  pkg_category_id :: nat
  pkg_location_id :: "nat option"
  pkg_status :: string

record audit =
  aud_package_id :: nat
  aud_action :: string
  aud_old_status :: "string option"
  aud_new_status :: "string option"
  aud_old_location :: "string option"
  aud_new_location :: "string option"
  aud_notes :: string

record db =
  Categories :: "category list"
  Locations :: "location list"
  Packages :: "package list"
  AuditTrail :: "audit list"

text \<open>
  \<^verbatim>\<open>INTEGER PRIMARY KEY AUTOINCREMENT\<close>: a new row gets an id one above the largest id
  of the table (no row is ever deleted).
\<close>

definition next_rowid :: "nat list \<Rightarrow> nat" where
  "next_rowid ids = Suc (fold max ids 0)"

subsection \<open>Initial data\<close>

text \<open>Decimal digits of a number, and the format \<^verbatim>\<open>{n:02d}\<close>.\<close>

function str_nat :: "nat \<Rightarrow> string" where
  "str_nat n = (if n < 10 then [char_of (48 + n)]
                else str_nat (n div 10) @ [char_of (48 + n mod 10)])"
  by pat_completeness auto
termination
  by (relation "measure id") auto

declare str_nat.simps [simp del]

definition fmt_02d :: "nat \<Rightarrow> string" where
  "fmt_02d n = (if n < 10 then ''0'' @ str_nat n else str_nat n)"

text \<open>\<^verbatim>\<open>INSERT OR IGNORE\<close>: a row whose unique key is already there is skipped.\<close>

definition insert_category ::
  "string \<times> string \<times> string \<times> real \<times> nat \<Rightarrow> db \<Rightarrow> db" where
  "insert_category row d =
     (case row of (name, descr, z, mw, pl) \<Rightarrow>
        if name \<in> set (map cat_name (Categories d)) then d
        else d\<lparr>Categories := Categories d @
               [\<lparr>cat_id = next_rowid (map cat_id (Categories d)), cat_name = name,
                 cat_description = descr, cat_zone = z, cat_max_weight = mw,
                 cat_priority_level = pl\<rparr>]\<rparr>)"

definition insert_location :: "nat \<Rightarrow> nat \<Rightarrow> nat \<Rightarrow> db \<Rightarrow> db" where
  "insert_location c a sh d =
     (let z = [char_of (64 + c)];
          code = z @ fmt_02d a @ ''-'' @ fmt_02d sh
      in if code \<in> set (map loc_code (Locations d)) then d
         else d\<lparr>Locations := Locations d @
                [\<lparr>loc_id = next_rowid (map loc_id (Locations d)), loc_code = code,
                  loc_zone = z, loc_aisle = a, loc_shelf = sh, loc_category_id = c,
                  is_occupied = False\<rparr>]\<rparr>)"

definition categories_seed :: "(string \<times> string \<times> string \<times> real \<times> nat) list" where
  "categories_seed =
     [(''Standard'', ''Regular packages, standard delivery'', ''A'', 30.0, 3),
      (''Express'', ''High priority, expedited delivery'', ''B'', 25.0, 1),
      (''Fragile'', ''Handle with care, delicate items'', ''C'', 20.0, 2),
      (''Heavy'', ''Heavy items requiring special handling'', ''D'', 100.0, 4),
      (''International'', ''International shipments'', ''E'', 50.0, 2)]"

text \<open>
  \<^verbatim>\<open>_populate_initial_data\<close>: the five categories, then for each category id 1 to 5,
  each aisle 1 to 5 and each shelf 1 to 4 one location, in the order of the three loops.
\<close>

definition populate_initial_data :: "db \<Rightarrow> db" where
  "populate_initial_data d =
     fold (\<lambda>c. fold (\<lambda>a. fold (\<lambda>sh. insert_location c a sh) [1..<5]) [1..<6]) [1..<6]
       (fold insert_category categories_seed d)"

definition empty_db :: db where
  "empty_db = \<lparr>Categories = [], Locations = [], Packages = [], AuditTrail = []\<rparr>"

definition initial_db :: db where
  "initial_db = populate_initial_data empty_db"

section \<open>The package manager\<close>

text \<open>
  The operations return \<^verbatim>\<open>True\<close> or \<^verbatim>\<open>False\<close>; each \<^verbatim>\<open>return False\<close> is one
  branch, told apart by the message it prints, and gets its own error value.
  \<open>StorageFailure\<close> is the handler of \<^verbatim>\<open>sqlite3.Error\<close>, which rolls the
  transaction back. \<open>UncaughtTypeError\<close> is the exception of subscripting the
  \<^verbatim>\<open>None\<close> that \<^verbatim>\<open>fetchone()\<close> returns on an empty result: no handler catches it,
  and the transaction is never committed.
\<close>

datatype error =
  DuplicateBarcode | NoAvailableLocation | PackageNotFound | StorageFailure | UncaughtTypeError

text \<open>
  \<^verbatim>\<open>find_available_location\<close>: the first row of \<^verbatim>\<open>Locations\<close>, in row order, of the
  given category that is not occupied. The query has \<^verbatim>\<open>LIMIT 1\<close> and no ordering; the
  storage engine answers it by a scan of the table in row-id order.
\<close>

definition find_available_location :: "db \<Rightarrow> nat \<Rightarrow> nat option" where
  "find_available_location d category_id =
     map_option loc_id
       (find (\<lambda>l. loc_category_id l = category_id \<and> \<not> is_occupied l) (Locations d))"

text \<open>\<^verbatim>\<open>UPDATE Locations SET is_occupied = v WHERE location_id = lid\<close>.\<close>

definition set_occupied :: "nat \<Rightarrow> bool \<Rightarrow> location list \<Rightarrow> location list" where
  "set_occupied lid v ls = map (\<lambda>l. if loc_id l = lid then l\<lparr>is_occupied := v\<rparr> else l) ls"

text \<open>
  \<^verbatim>\<open>register_package\<close>. The barcode check and the search for a location return before
  anything is written. The \<^verbatim>\<open>INSERT\<close> into \<^verbatim>\<open>Packages\<close> is refused by the storage
  engine when a \<^verbatim>\<open>NOT NULL\<close> column would be empty (a NaN is bound as \<^verbatim>\<open>NULL\<close>) or
  when the category id is not a row of \<^verbatim>\<open>Categories\<close> (foreign keys are switched on);
  the handler then rolls back. \<^verbatim>\<open>not location_id\<close> also holds for the id 0.
\<close>

definition register_package ::
  "db \<Rightarrow> string \<Rightarrow> pyfloat \<Rightarrow> pyfloat \<Rightarrow> pyfloat \<Rightarrow> pyfloat \<Rightarrow> string \<Rightarrow> string
     \<Rightarrow> (error + unit) \<times> db" where
  "register_package d barcode weight len width height destination priority =
     (if barcode \<in> set (map pkg_barcode (Packages d)) then (Inl DuplicateBarcode, d)
      else
        case categorize_package weight priority destination of (category_id, category_name) \<Rightarrow>
        case find_available_location d category_id of
          None \<Rightarrow> (Inl NoAvailableLocation, d)
        | Some location_id \<Rightarrow>
            if location_id = 0 then (Inl NoAvailableLocation, d)
            else if NaN \<in> set [weight, len, width, height]
                    \<or> category_id \<notin> set (map cat_id (Categories d))
            then (Inl StorageFailure, d)
            else
              let package_id = next_rowid (map pkg_id (Packages d));
                  d1 = d\<lparr>Packages := Packages d @
                         [\<lparr>pkg_id = package_id, pkg_barcode = barcode, pkg_weight = weight,
                           pkg_length = len, pkg_width = width, pkg_height = height,
                           pkg_destination = destination, pkg_priority = priority,
                           pkg_category_id = category_id,
                           pkg_location_id = Some location_id,
                           pkg_status = ''Stored''\<rparr>]\<rparr>;
                  d2 = d1\<lparr>Locations := set_occupied location_id True (Locations d1)\<rparr>
              in case find (\<lambda>l. loc_id l = location_id) (Locations d2) of
                   None \<Rightarrow> (Inl UncaughtTypeError, d)
                 | Some l \<Rightarrow>
                     (Inr (),
                      d2\<lparr>AuditTrail := AuditTrail d2 @
                          [\<lparr>aud_package_id = package_id, aud_action = ''REGISTERED'',
                            aud_old_status = None, aud_new_status = Some ''Stored'',
                            aud_old_location = None, aud_new_location = Some (loc_code l),
                            aud_notes = ''Package categorized as '' @ category_name\<rparr>]\<rparr>))"

text \<open>
  \<^verbatim>\<open>search_package\<close>: the package with the barcode, joined with its category (a package
  without a category row is not found) and, by a left join, with its location. Of the
  dictionary it returns, the entries \<^verbatim>\<open>dimensions\<close> and \<^verbatim>\<open>received_at\<close> are left out.
\<close>

record package_view =
  view_package_id :: nat
  view_barcode :: string
  view_weight :: pyfloat
  view_destination :: string
  view_priority :: string
  view_status :: string
  view_category :: string
  view_location :: "string option"

definition search_package :: "db \<Rightarrow> string \<Rightarrow> package_view option" where
  "search_package d barcode =
     (case find (\<lambda>p. pkg_barcode p = barcode) (Packages d) of
        None \<Rightarrow> None
      | Some p \<Rightarrow>
         (case find (\<lambda>c. cat_id c = pkg_category_id p) (Categories d) of
            None \<Rightarrow> None
          | Some c \<Rightarrow>
              Some \<lparr>view_package_id = pkg_id p, view_barcode = pkg_barcode p,
                    view_weight = pkg_weight p, view_destination = pkg_destination p,
                    view_priority = pkg_priority p, view_status = pkg_status p,
                    view_category = cat_name c,
                    view_location =
                      (case pkg_location_id p of
                         None \<Rightarrow> None
                       | Some lid \<Rightarrow>
                           map_option loc_code (find (\<lambda>l. loc_id l = lid) (Locations d)))\<rparr>))"

text \<open>
  \<^verbatim>\<open>update_package_status\<close>. The status of every row with the barcode is overwritten
  with the new status, whatever the old one was. When the new status is \<^verbatim>\<open>delivered\<close>
  in any letter case, the location that the package row names is marked free; the
  scalar subquery takes the first row with the barcode, and a \<^verbatim>\<open>NULL\<close> location id
  matches no location. The package row keeps its location id.
\<close>

definition update_package_status :: "db \<Rightarrow> string \<Rightarrow> string \<Rightarrow> (error + unit) \<times> db" where
  "update_package_status d barcode new_status =
     (case search_package d barcode of
        None \<Rightarrow> (Inl PackageNotFound, d)
      | Some package \<Rightarrow>
          let old_status = view_status package;
              d1 = d\<lparr>Packages :=
                     map (\<lambda>p. if pkg_barcode p = barcode then p\<lparr>pkg_status := new_status\<rparr> else p)
                       (Packages d)\<rparr>;
              d2 = (if lower new_status = ''delivered'' then
                      (case find (\<lambda>p. pkg_barcode p = barcode) (Packages d1) of
                         None \<Rightarrow> d1
                       | Some p \<Rightarrow>
                          (case pkg_location_id p of
                             None \<Rightarrow> d1
                           | Some lid \<Rightarrow>
                               d1\<lparr>Locations := set_occupied lid False (Locations d1)\<rparr>))
                    else d1)
          in (Inr (),
              d2\<lparr>AuditTrail := AuditTrail d2 @
                  [\<lparr>aud_package_id = view_package_id package, aud_action = ''STATUS_UPDATE'',
                    aud_old_status = Some old_status, aud_new_status = Some new_status,
                    aud_old_location = None, aud_new_location = None,
                    aud_notes = ''Status changed from '' @ old_status @ '' to '' @ new_status\<rparr>]\<rparr>))"

subsection \<open>Runs of the program\<close>

text \<open>
  The states the program can be in: the initialised database, and every state that one
  more call of \<^verbatim>\<open>register_package\<close> or \<^verbatim>\<open>update_package_status\<close>, with any arguments,
  leaves behind.
\<close>

datatype op =
  Register string pyfloat pyfloat pyfloat pyfloat string string
| UpdateStatus string string

fun exec :: "op \<Rightarrow> db \<Rightarrow> db" where
  "exec (Register b w l wd h dst pr) d = snd (register_package d b w l wd h dst pr)"
| "exec (UpdateStatus b ns) d = snd (update_package_status d b ns)"

definition run :: "op list \<Rightarrow> db \<Rightarrow> db" where
  "run ops d = fold exec ops d"

inductive reachable :: "db \<Rightarrow> bool" where
  init: "reachable initial_db"
| step: "reachable d \<Longrightarrow> reachable (exec opn d)"

text \<open>
  A status counts as delivered when \<^verbatim>\<open>update_package_status\<close> treats it so: in any
  letter case. A run is \<^emph>\<open>disciplined\<close> when it never updates the status of a package
  that is already delivered, so that delivery is final.
\<close>

definition delivered :: "string \<Rightarrow> bool" where
  "delivered st = (lower st = ''delivered'')"

definition delivered_in :: "db \<Rightarrow> string \<Rightarrow> bool" where
  "delivered_in d barcode =
     (\<exists>p \<in> set (Packages d). pkg_barcode p = barcode \<and> delivered (pkg_status p))"

inductive disciplined :: "db \<Rightarrow> bool" where
  init: "disciplined initial_db"
| register: "disciplined d \<Longrightarrow> disciplined (exec (Register b w l wd h dst pr) d)"
| update: "disciplined d \<Longrightarrow> \<not> delivered_in d b \<Longrightarrow> disciplined (exec (UpdateStatus b ns) d)"

section \<open>Notions of the specification\<close>

text \<open>The second rule of the categorisation, as the source writes it.\<close>

abbreviation international_rule :: "string \<Rightarrow> bool" where
  "international_rule destination \<equiv>
     str_in ''international'' (lower destination) \<or> str_count destination (CHR '','') > 1"

text \<open>The pool of a category is exhausted: each of its locations is occupied.\<close>

definition pool_exhausted :: "db \<Rightarrow> nat \<Rightarrow> bool" where
  "pool_exhausted d c = (\<forall>l \<in> set (Locations d). loc_category_id l = c \<longrightarrow> is_occupied l)"

text \<open>
  The occupied locations of a zone, counted as \<^verbatim>\<open>get_summary_report\<close> counts them, and
  the packages that are not delivered and whose location (the row their location id
  names) lies in the zone. What ``delivered'' means is a parameter: the exact status
  \<^verbatim>\<open>Delivered\<close>, or \<open>delivered\<close> above.
\<close>

definition occupied_in_zone :: "db \<Rightarrow> string \<Rightarrow> nat" where
  "occupied_in_zone d z = length (filter (\<lambda>l. loc_zone l = z \<and> is_occupied l) (Locations d))"

definition package_zone :: "db \<Rightarrow> package \<Rightarrow> string option" where
  "package_zone d p =
     (case pkg_location_id p of
        None \<Rightarrow> None
      | Some lid \<Rightarrow> map_option loc_zone (find (\<lambda>l. loc_id l = lid) (Locations d)))"

definition undelivered_in_zone :: "(string \<Rightarrow> bool) \<Rightarrow> db \<Rightarrow> string \<Rightarrow> nat" where
  "undelivered_in_zone dlv d z =
     length (filter (\<lambda>p. \<not> dlv (pkg_status p) \<and> package_zone d p = Some z) (Packages d))"

definition exactly_Delivered :: "string \<Rightarrow> bool" where
  "exactly_Delivered st = (st = ''Delivered'')"

text \<open>The two counts of a zone side by side.\<close>

definition zone_counts :: "(string \<Rightarrow> bool) \<Rightarrow> db \<Rightarrow> string \<Rightarrow> nat \<times> nat" where
  "zone_counts dlv d z = (occupied_in_zone d z, undelivered_in_zone dlv d z)"

text \<open>A run that only registers packages.\<close>

fun is_register :: "op \<Rightarrow> bool" where
  "is_register (Register b w l wd h dst pr) = True"
| "is_register (UpdateStatus b ns) = False"

subsection \<open>Invariants\<close>

text \<open>
  The initial data in closed form: the five categories, and the location with row id
  \<open>i + 1\<close> for \<open>i\<close> from 0 to 99 (that the initial database is this one is proved below).
\<close>

definition seed_categories :: "category list" where
  "seed_categories =
     [\<lparr>cat_id = 1, cat_name = ''Standard'',
       cat_description = ''Regular packages, standard delivery'',
       cat_zone = ''A'', cat_max_weight = 30.0, cat_priority_level = 3\<rparr>,
      \<lparr>cat_id = 2, cat_name = ''Express'',
       cat_description = ''High priority, expedited delivery'',
       cat_zone = ''B'', cat_max_weight = 25.0, cat_priority_level = 1\<rparr>,
      \<lparr>cat_id = 3, cat_name = ''Fragile'',
       cat_description = ''Handle with care, delicate items'',
       cat_zone = ''C'', cat_max_weight = 20.0, cat_priority_level = 2\<rparr>,
      \<lparr>cat_id = 4, cat_name = ''Heavy'',
       cat_description = ''Heavy items requiring special handling'',
       cat_zone = ''D'', cat_max_weight = 100.0, cat_priority_level = 4\<rparr>,
      \<lparr>cat_id = 5, cat_name = ''International'',
       cat_description = ''International shipments'',
       cat_zone = ''E'', cat_max_weight = 50.0, cat_priority_level = 2\<rparr>]"

definition seed_location :: "nat \<Rightarrow> location" where
  "seed_location i =
     \<lparr>loc_id = Suc i,
      loc_code = [char_of (65 + i div 20)] @ fmt_02d (Suc (i mod 20 div 4)) @ ''-''
                   @ fmt_02d (Suc (i mod 4)),
      loc_zone = [char_of (65 + i div 20)], loc_aisle = Suc (i mod 20 div 4),
      loc_shelf = Suc (i mod 4), loc_category_id = Suc (i div 20), is_occupied = False\<rparr>"

text \<open>
  The same hundred locations written as a table, without arithmetic on characters: the
  form in which sample runs are evaluated.
\<close>

definition location_grid :: "location list" where
  "location_grid =
     concat (map (\<lambda>(c, z).
       concat (map (\<lambda>(a, az).
         map (\<lambda>(sh, shz).
               \<lparr>loc_id = 20 * (c - 1) + 4 * (a - 1) + sh, loc_code = z @ az @ ''-'' @ shz,
                loc_zone = z, loc_aisle = a, loc_shelf = sh, loc_category_id = c,
                is_occupied = False\<rparr>)
           [(1, ''01''), (2, ''02''), (3, ''03''), (4, ''04'')])
         [(1, ''01''), (2, ''02''), (3, ''03''), (4, ''04''), (5, ''05'')]))
       [(1, ''A''), (2, ''B''), (3, ''C''), (4, ''D''), (5, ''E'')])"

text \<open>
  What every reachable state satisfies (proved below): the categories and, apart from the
  occupancy flags, the locations are those of the initial database; barcodes are unique;
  every package has a category of the table and a location of the table.
\<close>

definition well_formed :: "db \<Rightarrow> bool" where
  "well_formed d =
     (Categories d = seed_categories
      \<and> map (\<lambda>l. l\<lparr>is_occupied := False\<rparr>) (Locations d) = map seed_location [0..<100]
      \<and> distinct (map pkg_barcode (Packages d))
      \<and> (\<forall>p \<in> set (Packages d).
            pkg_category_id p \<in> set (map cat_id (Categories d))
            \<and> (\<exists>lid. pkg_location_id p = Some lid \<and> lid \<in> set (map loc_id (Locations d)))))"

text \<open>
  The bookkeeping that a disciplined run maintains (proved below): a package that is not
  delivered names an occupied location, an occupied location is named by a package that
  is not delivered, and no two packages that are not delivered name the same location.
\<close>

definition undelivered :: "package \<Rightarrow> bool" where
  "undelivered p = (\<not> delivered (pkg_status p))"

definition occupancy_consistent :: "db \<Rightarrow> bool" where
  "occupancy_consistent d =
     ((\<forall>p \<in> set (Packages d). undelivered p \<longrightarrow>
          (\<exists>l \<in> set (Locations d). pkg_location_id p = Some (loc_id l) \<and> is_occupied l))
      \<and> (\<forall>l \<in> set (Locations d). is_occupied l \<longrightarrow>
          (\<exists>p \<in> set (Packages d). undelivered p \<and> pkg_location_id p = Some (loc_id l)))
      \<and> distinct (map pkg_location_id (filter undelivered (Packages d))))"

subsection \<open>Sample runs\<close>

text \<open>
  What a sample run is asked about: for each package its barcode, status and location
  id; for each audit entry its package, action, statuses and new location code.
\<close>

definition package_summary :: "package \<Rightarrow> string \<times> string \<times> nat option" where
  "package_summary p = (pkg_barcode p, pkg_status p, pkg_location_id p)"

definition audit_summary ::
  "audit \<Rightarrow> nat \<times> string \<times> string option \<times> string option \<times> string option" where
  "audit_summary e =
     (aud_package_id e, aud_action e, aud_old_status e, aud_new_status e, aud_new_location e)"

text \<open>
  An express package with the given barcode; twenty of them, which fill zone B; and the
  statement that the pool of a category is exhausted while the packages have the given
  barcodes.
\<close>

definition express_package :: "string \<Rightarrow> op" where
  "express_package b =
     Register b (Finite 25.0) (Finite 30) (Finite 20) (Finite 15) ''New York, USA'' ''Express''"

definition twenty_barcodes :: "string list" where
  "twenty_barcodes = map (\<lambda>i. ''X'' @ fmt_02d i) [1..<21]"

definition twenty_express :: "op list" where
  "twenty_express = map express_package twenty_barcodes"

definition exhausted_with_barcodes :: "db \<Rightarrow> nat \<Rightarrow> string list \<Rightarrow> bool" where
  "exhausted_with_barcodes d c bs = (pool_exhausted d c \<and> map pkg_barcode (Packages d) = bs)"

section \<open>Properties\<close>

subsection \<open>The initial database\<close>

text \<open>
  Initialisation yields the five categories with ids 1 to 5 and the hundred locations
  with ids 1 to 100, twenty per category, none occupied, and no package or audit entry.
\<close>

lemma initial_db_grid:
  "initial_db = \<lparr>Categories = seed_categories, Locations = location_grid,
                 Packages = [], AuditTrail = []\<rparr>"
  by code_simp

declare initial_db_grid [code]

lemma seed_location_grid: "map seed_location [0..<100] = location_grid"
  by code_simp

lemma initial_db_closed:
  "initial_db = \<lparr>Categories = seed_categories, Locations = map seed_location [0..<100],
                 Packages = [], AuditTrail = []\<rparr>"
  by (simp add: initial_db_grid seed_location_grid)

subsection \<open>What the two operations do\<close>

lemma map_loc_id_set_occupied [simp]: "map loc_id (set_occupied lid v ls) = map loc_id ls"
  by (simp add: set_occupied_def)

lemma find_available_location_Some:
  "find_available_location d c = Some lid \<Longrightarrow>
     \<exists>x \<in> set (Locations d). loc_id x = lid \<and> loc_category_id x = c \<and> \<not> is_occupied x"
  by (auto simp: find_available_location_def find_Some_iff)

lemma find_available_location_None:
  "find_available_location d c = None \<longleftrightarrow> pool_exhausted d c"
  by (auto simp: find_available_location_def find_None_iff pool_exhausted_def)

lemma find_loc_id_set_occupied:
  "x \<in> set ls \<Longrightarrow> loc_id x = lid \<Longrightarrow>
     \<exists>y. find (\<lambda>l. loc_id l = lid) (set_occupied lid v ls) = Some y \<and> loc_id y = lid
          \<and> y \<in> set (set_occupied lid v ls)"
proof -
  assume "x \<in> set ls" "loc_id x = lid"
  then have "lid \<in> set (map loc_id (set_occupied lid v ls))" by force
  then have "find (\<lambda>l. loc_id l = lid) (set_occupied lid v ls) \<noteq> None"
    by (auto simp: find_None_iff simp del: map_loc_id_set_occupied)
  then obtain y where y: "find (\<lambda>l. loc_id l = lid) (set_occupied lid v ls) = Some y" by auto
  then show ?thesis by (auto simp: find_Some_iff)
qed

lemma register_failure_unchanged:
  "fst (register_package d b w l wd h dst pr) = Inl e \<Longrightarrow>
     snd (register_package d b w l wd h dst pr) = d"
  by (auto simp: register_package_def Let_def split: prod.splits option.splits if_splits)

lemma register_success:
  assumes "fst (register_package d b w l wd h dst pr) = Inr u"
  shows "\<exists>lid loc. b \<notin> set (map pkg_barcode (Packages d))
           \<and> find_available_location d (fst (categorize_package w pr dst)) = Some lid
           \<and> lid \<noteq> 0
           \<and> fst (categorize_package w pr dst) \<in> set (map cat_id (Categories d))
           \<and> find (\<lambda>x. loc_id x = lid) (set_occupied lid True (Locations d)) = Some loc
           \<and> snd (register_package d b w l wd h dst pr) =
               d\<lparr>Packages := Packages d @
                    [\<lparr>pkg_id = next_rowid (map pkg_id (Packages d)), pkg_barcode = b,
                      pkg_weight = w, pkg_length = l, pkg_width = wd, pkg_height = h,
                      pkg_destination = dst, pkg_priority = pr,
                      pkg_category_id = fst (categorize_package w pr dst),
                      pkg_location_id = Some lid, pkg_status = ''Stored''\<rparr>],
                 Locations := set_occupied lid True (Locations d),
                 AuditTrail := AuditTrail d @
                    [\<lparr>aud_package_id = next_rowid (map pkg_id (Packages d)),
                      aud_action = ''REGISTERED'', aud_old_status = None,
                      aud_new_status = Some ''Stored'', aud_old_location = None,
                      aud_new_location = Some (loc_code loc),
                      aud_notes = ''Package categorized as ''
                                    @ snd (categorize_package w pr dst)\<rparr>]\<rparr>"
  using assms
  by (auto simp: register_package_def Let_def split: prod.splits option.splits if_splits)

lemma register_succeeds:
  assumes "b \<notin> set (map pkg_barcode (Packages d))"
    and "find_available_location d (fst (categorize_package w pr dst)) = Some lid"
    and "lid \<noteq> 0"
    and "NaN \<notin> set [w, l, wd, h]"
    and "fst (categorize_package w pr dst) \<in> set (map cat_id (Categories d))"
  shows "fst (register_package d b w l wd h dst pr) = Inr ()"
proof -
  obtain x where x: "x \<in> set (Locations d)" "loc_id x = lid"
    using find_available_location_Some [OF assms(2)] by blast
  obtain y where "find (\<lambda>l. loc_id l = lid) (set_occupied lid True (Locations d)) = Some y"
    using find_loc_id_set_occupied [OF x] by blast
  then show ?thesis
    using assms
    by (auto simp: register_package_def Let_def split: prod.splits option.splits)
qed

lemma update_failure_unchanged:
  "fst (update_package_status d b ns) = Inl e \<Longrightarrow> snd (update_package_status d b ns) = d"
  by (auto simp: update_package_status_def Let_def split: option.splits if_splits)

lemma update_failure_iff:
  "fst (update_package_status d b ns) = Inl e \<longleftrightarrow> e = PackageNotFound \<and> search_package d b = None"
  by (auto simp: update_package_status_def Let_def split: option.splits if_splits)

lemma search_package_Some:
  "search_package d b = Some v \<Longrightarrow>
     \<exists>p. find (\<lambda>p. pkg_barcode p = b) (Packages d) = Some p
        \<and> view_package_id v = pkg_id p \<and> view_status v = pkg_status p"
  by (auto simp: search_package_def split: option.splits)

lemma Packages_update:
  "fst (update_package_status d b ns) = Inr u \<Longrightarrow>
   Packages (snd (update_package_status d b ns)) =
     map (\<lambda>p. if pkg_barcode p = b then p\<lparr>pkg_status := ns\<rparr> else p) (Packages d)"
  by (auto simp: update_package_status_def Let_def split: option.splits if_splits)

lemma Locations_update_other:
  "lower ns \<noteq> ''delivered'' \<Longrightarrow>
   Locations (snd (update_package_status d b ns)) = Locations d"
  by (auto simp: update_package_status_def Let_def split: option.splits if_splits)

lemma Categories_update:
  "Categories (snd (update_package_status d b ns)) = Categories d"
  by (auto simp: update_package_status_def Let_def split: option.splits if_splits)

lemma Categories_register:
  "Categories (snd (register_package d b w l wd h dst pr)) = Categories d"
  by (auto simp: register_package_def Let_def split: prod.splits option.splits if_splits)

subsection \<open>Categorisation\<close>

lemma lower_Express: "lower ''Express'' = ''express''"
  by code_simp

lemma length_split_comma: "length (split_comma s) = Suc (str_count s (CHR '',''))"
  by (induction s) (auto simp: str_count_def split: list.splits)

text \<open>
  Claim C1. \<open>categorize_package\<close> is a function of weight, priority and destination
  alone, and its rules apply in order, the first one that matches deciding: an express
  priority gives Express whatever the rest; otherwise an international destination gives
  International; otherwise a weight above 50 gives Heavy; otherwise a weight below 5
  gives Fragile; otherwise the category is Standard. In particular a package of weight 60
  with priority \<^verbatim>\<open>Express\<close> is Express for every destination.
\<close>

theorem categorize_first_match:
  "(lower p = ''express'' \<longrightarrow> categorize_package w p d = (2, ''Express''))
   \<and> (lower p \<noteq> ''express'' \<and> international_rule d
        \<longrightarrow> categorize_package w p d = (5, ''International''))
   \<and> (lower p \<noteq> ''express'' \<and> \<not> international_rule d \<and> float_gt w 50.0
        \<longrightarrow> categorize_package w p d = (4, ''Heavy''))
   \<and> (lower p \<noteq> ''express'' \<and> \<not> international_rule d \<and> \<not> float_gt w 50.0
         \<and> float_lt w 5.0
        \<longrightarrow> categorize_package w p d = (3, ''Fragile''))
   \<and> (lower p \<noteq> ''express'' \<and> \<not> international_rule d \<and> \<not> float_gt w 50.0
         \<and> \<not> float_lt w 5.0
        \<longrightarrow> categorize_package w p d = (1, ''Standard''))
   \<and> categorize_package (Finite 60.0) ''Express'' d' = (2, ''Express'')"
  by (simp add: categorize_package_def lower_Express)

theorem categorize_first_match_witness:
  "(lower ''EXPRESS'' = ''express''
      \<and> categorize_package (Finite 60.0) ''EXPRESS'' ''London, UK, International''
          = (2, ''Express''))
   \<and> (lower ''Standard'' \<noteq> ''express'' \<and> international_rule ''London, UK, International''
      \<and> categorize_package (Finite 75.0) ''Standard'' ''London, UK, International''
          = (5, ''International''))
   \<and> (lower ''Standard'' \<noteq> ''express'' \<and> \<not> international_rule ''Houston, USA''
      \<and> float_gt (Finite 75.0) 50.0
      \<and> categorize_package (Finite 75.0) ''Standard'' ''Houston, USA'' = (4, ''Heavy''))
   \<and> (lower ''Standard'' \<noteq> ''express'' \<and> \<not> international_rule ''Chicago, USA''
      \<and> \<not> float_gt (Finite 2.5) 50.0 \<and> float_lt (Finite 2.5) 5.0
      \<and> categorize_package (Finite 2.5) ''Standard'' ''Chicago, USA'' = (3, ''Fragile''))
   \<and> (lower ''Standard'' \<noteq> ''express'' \<and> \<not> international_rule ''Los Angeles, USA''
      \<and> \<not> float_gt (Finite 5.0) 50.0 \<and> \<not> float_lt (Finite 5.0) 5.0
      \<and> categorize_package (Finite 5.0) ''Standard'' ''Los Angeles, USA''
          = (1, ''Standard''))"
proof -
  have e: "lower ''EXPRESS'' = ''express''" by code_simp
  have s: "lower ''Standard'' \<noteq> ''express''" by code_simp
  have i1: "international_rule ''London, UK, International''" by code_simp
  have i2: "\<not> international_rule ''Houston, USA''" by code_simp
  have i3: "\<not> international_rule ''Chicago, USA''" by code_simp
  have i4: "\<not> international_rule ''Los Angeles, USA''" by code_simp
  show ?thesis
    using e s i1 i2 i3 i4
      categorize_first_match [of "''EXPRESS''" "Finite 60.0" "''London, UK, International''"]
      categorize_first_match [of "''Standard''" "Finite 75.0" "''London, UK, International''"]
      categorize_first_match [of "''Standard''" "Finite 75.0" "''Houston, USA''"]
      categorize_first_match [of "''Standard''" "Finite 2.5" "''Chicago, USA''"]
      categorize_first_match [of "''Standard''" "Finite 5.0" "''Los Angeles, USA''"]
    by simp
qed

text \<open>
  Claim C2, as stated: with a priority other than express, the category is International
  exactly when the destination contains \<^verbatim>\<open>international\<close> in any letter case or has more
  than one comma-separated component. It fails for \<^verbatim>\<open>Boston, USA\<close>, which has two
  components and no \<^verbatim>\<open>international\<close>, and is Standard at weight 10.
\<close>

theorem categorize_two_components_counterexample:
  "\<not> (lower ''Standard'' \<noteq> ''express'' \<longrightarrow>
        (categorize_package (Finite 10.0) ''Standard'' ''Boston, USA'' = (5, ''International'')
         \<longleftrightarrow> (str_in ''international'' (lower ''Boston, USA'')
              \<or> 1 < length (split_comma ''Boston, USA''))))"
  by code_simp

text \<open>
  Claim C2, amended. With a priority other than express, the category is International
  exactly when the destination contains \<^verbatim>\<open>international\<close> in any letter case or
  contains more than one comma, that is, has more than two comma-separated components.
\<close>

theorem categorize_international_iff:
  "lower p \<noteq> ''express'' \<Longrightarrow>
     (categorize_package w p d = (5, ''International'')
        \<longleftrightarrow> (str_in ''international'' (lower d) \<or> 1 < str_count d (CHR '','')))
     \<and> (1 < str_count d (CHR '','') \<longleftrightarrow> 2 < length (split_comma d))"
  by (auto simp add: categorize_package_def length_split_comma)

theorem categorize_international_iff_witness:
  "lower ''Standard'' \<noteq> ''express''
   \<and> categorize_package (Finite 15.0) ''Standard'' ''London, UK, International''
        = (5, ''International'')
   \<and> 2 < length (split_comma ''London, UK, International'')
   \<and> categorize_package (Finite 15.0) ''Standard'' ''Boston, USA'' \<noteq> (5, ''International'')
   \<and> \<not> 2 < length (split_comma ''Boston, USA'')"
proof -
  have s: "lower ''Standard'' \<noteq> ''express''" by code_simp
  have c1: "1 < str_count ''London, UK, International'' (CHR '','')" by code_simp
  have c2: "\<not> 1 < str_count ''Boston, USA'' (CHR '','')" by code_simp
  have c3: "\<not> str_in ''international'' (lower ''Boston, USA'')" by code_simp
  show ?thesis
    using s c1 c2 c3
      categorize_international_iff [OF s, of "Finite 15.0" "''London, UK, International''"]
      categorize_international_iff [OF s, of "Finite 15.0" "''Boston, USA''"]
    by simp
qed

subsection \<open>Every reachable state is well formed\<close>

lemma free_set_occupied [simp]:
  "map (\<lambda>l. l\<lparr>is_occupied := False\<rparr>) (set_occupied lid v ls)
     = map (\<lambda>l. l\<lparr>is_occupied := False\<rparr>) ls"
  by (simp add: set_occupied_def)

lemma set_map_loc_id_set_occupied [simp]:
  "loc_id ` set (set_occupied lid v ls) = loc_id ` set ls"
  using map_loc_id_set_occupied [of lid v ls] by (metis list.set_map)

lemma well_formed_initial: "well_formed initial_db"
  by (simp add: well_formed_def initial_db_closed seed_location_def)

lemma register_success_elim:
  assumes "fst (register_package d b w l wd h dst pr) = Inr u"
  obtains lid loc where
    "b \<notin> set (map pkg_barcode (Packages d))"
    "find_available_location d (fst (categorize_package w pr dst)) = Some lid"
    "lid \<noteq> 0"
    "fst (categorize_package w pr dst) \<in> set (map cat_id (Categories d))"
    "find (\<lambda>x. loc_id x = lid) (set_occupied lid True (Locations d)) = Some loc"
    "Packages (snd (register_package d b w l wd h dst pr)) =
       Packages d @
         [\<lparr>pkg_id = next_rowid (map pkg_id (Packages d)), pkg_barcode = b,
           pkg_weight = w, pkg_length = l, pkg_width = wd, pkg_height = h,
           pkg_destination = dst, pkg_priority = pr,
           pkg_category_id = fst (categorize_package w pr dst),
           pkg_location_id = Some lid, pkg_status = ''Stored''\<rparr>]"
    "Locations (snd (register_package d b w l wd h dst pr)) =
       set_occupied lid True (Locations d)"
    "AuditTrail (snd (register_package d b w l wd h dst pr)) =
       AuditTrail d @
         [\<lparr>aud_package_id = next_rowid (map pkg_id (Packages d)),
           aud_action = ''REGISTERED'', aud_old_status = None,
           aud_new_status = Some ''Stored'', aud_old_location = None,
           aud_new_location = Some (loc_code loc),
           aud_notes = ''Package categorized as '' @ snd (categorize_package w pr dst)\<rparr>]"
proof -
  from register_success [OF assms] obtain lid where
    "\<exists>loc. b \<notin> set (map pkg_barcode (Packages d))
           \<and> find_available_location d (fst (categorize_package w pr dst)) = Some lid
           \<and> lid \<noteq> 0
           \<and> fst (categorize_package w pr dst) \<in> set (map cat_id (Categories d))
           \<and> find (\<lambda>x. loc_id x = lid) (set_occupied lid True (Locations d)) = Some loc
           \<and> snd (register_package d b w l wd h dst pr) =
               d\<lparr>Packages := Packages d @
                    [\<lparr>pkg_id = next_rowid (map pkg_id (Packages d)), pkg_barcode = b,
                      pkg_weight = w, pkg_length = l, pkg_width = wd, pkg_height = h,
                      pkg_destination = dst, pkg_priority = pr,
                      pkg_category_id = fst (categorize_package w pr dst),
                      pkg_location_id = Some lid, pkg_status = ''Stored''\<rparr>],
                 Locations := set_occupied lid True (Locations d),
                 AuditTrail := AuditTrail d @
                    [\<lparr>aud_package_id = next_rowid (map pkg_id (Packages d)),
                      aud_action = ''REGISTERED'', aud_old_status = None,
                      aud_new_status = Some ''Stored'', aud_old_location = None,
                      aud_new_location = Some (loc_code loc),
                      aud_notes = ''Package categorized as ''
                                    @ snd (categorize_package w pr dst)\<rparr>]\<rparr>" ..
  then obtain loc where c:
    "b \<notin> set (map pkg_barcode (Packages d))
           \<and> find_available_location d (fst (categorize_package w pr dst)) = Some lid
           \<and> lid \<noteq> 0
           \<and> fst (categorize_package w pr dst) \<in> set (map cat_id (Categories d))
           \<and> find (\<lambda>x. loc_id x = lid) (set_occupied lid True (Locations d)) = Some loc
           \<and> snd (register_package d b w l wd h dst pr) =
               d\<lparr>Packages := Packages d @
                    [\<lparr>pkg_id = next_rowid (map pkg_id (Packages d)), pkg_barcode = b,
                      pkg_weight = w, pkg_length = l, pkg_width = wd, pkg_height = h,
                      pkg_destination = dst, pkg_priority = pr,
                      pkg_category_id = fst (categorize_package w pr dst),
                      pkg_location_id = Some lid, pkg_status = ''Stored''\<rparr>],
                 Locations := set_occupied lid True (Locations d),
                 AuditTrail := AuditTrail d @
                    [\<lparr>aud_package_id = next_rowid (map pkg_id (Packages d)),
                      aud_action = ''REGISTERED'', aud_old_status = None,
                      aud_new_status = Some ''Stored'', aud_old_location = None,
                      aud_new_location = Some (loc_code loc),
                      aud_notes = ''Package categorized as ''
                                    @ snd (categorize_package w pr dst)\<rparr>]\<rparr>" ..
  show thesis
    by (rule that [of lid loc]) (use c in simp_all)
qed

lemma well_formed_register:
  assumes "well_formed d"
  shows "well_formed (snd (register_package d b w l wd h dst pr))"
proof (cases "fst (register_package d b w l wd h dst pr)")
  case (Inl e)
  then show ?thesis using assms by (simp add: register_failure_unchanged)
next
  case (Inr u)
  from Inr obtain lid loc where
    fresh: "b \<notin> set (map pkg_barcode (Packages d))"
    and av: "find_available_location d (fst (categorize_package w pr dst)) = Some lid"
    and cat: "fst (categorize_package w pr dst) \<in> set (map cat_id (Categories d))"
    and pk: "Packages (snd (register_package d b w l wd h dst pr)) =
       Packages d @
         [\<lparr>pkg_id = next_rowid (map pkg_id (Packages d)), pkg_barcode = b,
           pkg_weight = w, pkg_length = l, pkg_width = wd, pkg_height = h,
           pkg_destination = dst, pkg_priority = pr,
           pkg_category_id = fst (categorize_package w pr dst),
           pkg_location_id = Some lid, pkg_status = ''Stored''\<rparr>]"
    and lc: "Locations (snd (register_package d b w l wd h dst pr)) =
       set_occupied lid True (Locations d)"
    by (rule register_success_elim)
  from find_available_location_Some [OF av] have "lid \<in> loc_id ` set (Locations d)"
    by auto
  with assms fresh cat show ?thesis
    unfolding well_formed_def pk lc Categories_register by auto
qed

lemma Locations_update_ids:
  "map (\<lambda>l. l\<lparr>is_occupied := False\<rparr>) (Locations (snd (update_package_status d b ns)))
     = map (\<lambda>l. l\<lparr>is_occupied := False\<rparr>) (Locations d)"
  by (auto simp: update_package_status_def Let_def split: option.splits if_splits)

lemma map_loc_id_free:
  "map loc_id ls = map loc_id (map (\<lambda>l. l\<lparr>is_occupied := False\<rparr>) ls)"
  by simp

lemma well_formed_update:
  assumes "well_formed d"
  shows "well_formed (snd (update_package_status d b ns))"
proof (cases "fst (update_package_status d b ns)")
  case (Inl e)
  then show ?thesis using assms by (simp add: update_failure_unchanged)
next
  case (Inr u)
  have ids: "map loc_id (Locations (snd (update_package_status d b ns))) = map loc_id (Locations d)"
    using Locations_update_ids [of d b ns] map_loc_id_free by metis
  have bc: "map pkg_barcode (Packages (snd (update_package_status d b ns)))
              = map pkg_barcode (Packages d)"
    unfolding Packages_update [OF Inr] by (induction "Packages d") auto
  show ?thesis
    using assms unfolding well_formed_def ids bc Categories_update Locations_update_ids
    by (auto simp: Packages_update [OF Inr])
qed

lemma reachable_well_formed: "reachable d \<Longrightarrow> well_formed d"
proof (induction rule: reachable.induct)
  case init
  show ?case by (rule well_formed_initial)
next
  case (step d opn)
  then show ?case
    by (cases opn) (simp_all add: well_formed_register well_formed_update)
qed

subsection \<open>Registration\<close>

lemma lower_express: "lower ''express'' = ''express''"
  by code_simp

text \<open>Twenty express packages fill zone B.\<close>

lemma zone_B_full: "exhausted_with_barcodes (run twenty_express initial_db) 2 twenty_barcodes"
  by code_simp

lemma X01_twenty: "''X01'' \<in> set twenty_barcodes"
  by code_simp

lemma reachable_run: "reachable d \<Longrightarrow> reachable (run ops d)"
  unfolding run_def by (induction ops arbitrary: d) (auto intro: reachable.step)

text \<open>
  Claim C4, as stated: whenever the pool of the category chosen for the submitted
  attributes is exhausted, registration fails with \<open>NoAvailableLocation\<close> and changes
  nothing. Once twenty express packages fill zone B, registering the barcode of one of
  them again as an express package fails with \<open>DuplicateBarcode\<close> instead: the barcode
  is checked first.
\<close>

theorem register_exhausted_counterexample:
  "\<not> (pool_exhausted (run twenty_express initial_db)
          (fst (categorize_package (Finite 25.0) ''Express'' ''New York, USA''))
        \<longrightarrow> fst (register_package (run twenty_express initial_db) ''X01''
                   (Finite 25.0) (Finite 30) (Finite 20) (Finite 15)
                   ''New York, USA'' ''Express'') = Inl NoAvailableLocation)"
proof -
  have c: "fst (categorize_package (Finite 25.0) ''Express'' ''New York, USA'') = 2"
    by (simp add: categorize_package_def lower_Express)
  have m: "''X01'' \<in> set (map pkg_barcode (Packages (run twenty_express initial_db)))"
    using zone_B_full X01_twenty unfolding exhausted_with_barcodes_def by simp
  have "fst (register_package (run twenty_express initial_db) ''X01''
               (Finite 25.0) (Finite 30) (Finite 20) (Finite 15)
               ''New York, USA'' ''Express'') = Inl DuplicateBarcode"
    using m by (simp add: register_package_def)
  then show ?thesis
    using zone_B_full unfolding exhausted_with_barcodes_def c by simp
qed

text \<open>
  Claim C4, amended. Whenever the pool of the category chosen for the submitted
  attributes is exhausted, registration fails and leaves the whole state as it was (no
  package row, no occupancy flag, no audit entry): with \<open>NoAvailableLocation\<close> when
  the barcode is not registered yet, with \<open>DuplicateBarcode\<close> when it is.
\<close>

theorem register_exhausted:
  assumes "pool_exhausted d (fst (categorize_package w pr dst))"
  shows "snd (register_package d b w l wd h dst pr) = d
         \<and> (b \<notin> set (map pkg_barcode (Packages d))
              \<longrightarrow> fst (register_package d b w l wd h dst pr) = Inl NoAvailableLocation)
         \<and> (b \<in> set (map pkg_barcode (Packages d))
              \<longrightarrow> fst (register_package d b w l wd h dst pr) = Inl DuplicateBarcode)"
proof -
  have "find_available_location d (fst (categorize_package w pr dst)) = None"
    using assms by (simp add: find_available_location_None)
  then show ?thesis
    by (auto simp: register_package_def split: prod.splits)
qed

theorem register_exhausted_witness:
  "pool_exhausted (run twenty_express initial_db)
     (fst (categorize_package (Finite 3.0) ''express'' ''Miami, USA''))
   \<and> ''000000000001'' \<notin> set (map pkg_barcode (Packages (run twenty_express initial_db)))
   \<and> register_package (run twenty_express initial_db) ''000000000001''
        (Finite 3.0) (Finite 12) (Finite 10) (Finite 6) ''Miami, USA'' ''express''
      = (Inl NoAvailableLocation, run twenty_express initial_db)"
proof -
  have c: "fst (categorize_package (Finite 3.0) ''express'' ''Miami, USA'') = 2"
    by (simp add: categorize_package_def lower_express)
  have h: "pool_exhausted (run twenty_express initial_db)
             (fst (categorize_package (Finite 3.0) ''express'' ''Miami, USA''))"
    using zone_B_full unfolding exhausted_with_barcodes_def c by simp
  have "map pkg_barcode (Packages (run twenty_express initial_db)) = twenty_barcodes"
    using zone_B_full unfolding exhausted_with_barcodes_def by simp
  moreover have "''000000000001'' \<notin> set twenty_barcodes"
    by code_simp
  ultimately have f:
    "''000000000001'' \<notin> set (map pkg_barcode (Packages (run twenty_express initial_db)))"
    by simp
  show ?thesis
    using h f register_exhausted [OF h, of "''000000000001''" "Finite 12" "Finite 10" "Finite 6"]
    by (simp add: prod_eq_iff)
qed

text \<open>
  Claim C5. Registration fails with \<open>DuplicateBarcode\<close> exactly when a package with the
  barcode exists already, and then leaves the state as it was; and in every reachable
  state (so after every sequence of registrations) no two packages have the same barcode.
\<close>

theorem register_duplicate_barcode:
  "(fst (register_package d b w l wd h dst pr) = Inl DuplicateBarcode
      \<longleftrightarrow> b \<in> set (map pkg_barcode (Packages d)))
   \<and> (b \<in> set (map pkg_barcode (Packages d))
        \<longrightarrow> snd (register_package d b w l wd h dst pr) = d)
   \<and> (reachable d \<longrightarrow> distinct (map pkg_barcode (Packages d)))"
proof -
  have "reachable d \<longrightarrow> distinct (map pkg_barcode (Packages d))"
    using reachable_well_formed [of d] by (simp add: well_formed_def)
  then show ?thesis
    by (auto simp: register_package_def Let_def split: prod.splits option.splits)
qed

theorem register_duplicate_barcode_witness:
  "reachable (run [express_package ''X01'', express_package ''X02''] initial_db)
   \<and> ''X01'' \<in> set (map pkg_barcode
                      (Packages (run [express_package ''X01'', express_package ''X02''] initial_db)))
   \<and> register_package (run [express_package ''X01'', express_package ''X02''] initial_db) ''X01''
        (Finite 75.0) (Finite 60) (Finite 50) (Finite 40) ''Houston, USA'' ''Standard''
      = (Inl DuplicateBarcode, run [express_package ''X01'', express_package ''X02''] initial_db)
   \<and> distinct (map pkg_barcode
                 (Packages (run [express_package ''X01'', express_package ''X02''] initial_db)))"
proof -
  let ?d = "run [express_package ''X01'', express_package ''X02''] initial_db"
  have r: "reachable ?d" by (rule reachable_run) (rule reachable.init)
  have m: "''X01'' \<in> set (map pkg_barcode (Packages ?d))" by code_simp
  show ?thesis
    using r m
      register_duplicate_barcode [of ?d "''X01''" "Finite 75.0" "Finite 60" "Finite 50" "Finite 40"
        "''Houston, USA''" "''Standard''"]
    by (simp add: prod_eq_iff)
qed

subsection \<open>Status updates\<close>

lemma search_package_None_iff:
  assumes "well_formed d"
  shows "search_package d b = None \<longleftrightarrow> b \<notin> set (map pkg_barcode (Packages d))"
proof
  assume "search_package d b = None"
  show "b \<notin> set (map pkg_barcode (Packages d))"
  proof
    assume "b \<in> set (map pkg_barcode (Packages d))"
    then obtain p where p: "find (\<lambda>p. pkg_barcode p = b) (Packages d) = Some p"
      by (cases "find (\<lambda>p. pkg_barcode p = b) (Packages d)") (auto simp: find_None_iff)
    then have "p \<in> set (Packages d)" by (auto simp: find_Some_iff)
    with assms have "pkg_category_id p \<in> set (map cat_id (Categories d))"
      unfolding well_formed_def by blast
    then obtain c where "find (\<lambda>c. cat_id c = pkg_category_id p) (Categories d) = Some c"
      by (cases "find (\<lambda>c. cat_id c = pkg_category_id p) (Categories d)")
         (auto simp: find_None_iff)
    with p \<open>search_package d b = None\<close> show False
      by (simp add: search_package_def)
  qed
next
  assume "b \<notin> set (map pkg_barcode (Packages d))"
  then have "find (\<lambda>p. pkg_barcode p = b) (Packages d) = None"
    by (auto simp: find_None_iff)
  then show "search_package d b = None" by (simp add: search_package_def)
qed

lemma status_after_update:
  "p \<in> set (map (\<lambda>p. if pkg_barcode p = b then p\<lparr>pkg_status := ns\<rparr> else p) ps) \<Longrightarrow>
     pkg_barcode p = b \<Longrightarrow> pkg_status p = ns"
proof -
  assume "p \<in> set (map (\<lambda>p. if pkg_barcode p = b then p\<lparr>pkg_status := ns\<rparr> else p) ps)"
    and b: "pkg_barcode p = b"
  then obtain q where q: "q \<in> set ps"
    and p: "p = (if pkg_barcode q = b then q\<lparr>pkg_status := ns\<rparr> else q)"
    by (auto simp only: set_map image_iff)
  show ?thesis
  proof (cases "pkg_barcode q = b")
    case True
    with p show ?thesis by simp
  next
    case False
    with p b show ?thesis by simp
  qed
qed

lemma update_success_iff:
  "fst (update_package_status d b ns) = Inr () \<longleftrightarrow> search_package d b \<noteq> None"
  by (auto simp: update_package_status_def Let_def split: option.splits)

text \<open>
  Claim C8. In every reachable state, \<open>update_package_status\<close> fails with
  \<open>PackageNotFound\<close> exactly when no package has the barcode, and then changes nothing;
  when a package has the barcode it succeeds for every new status, whatever the old status
  is (so also from \<^verbatim>\<open>Delivered\<close> back to \<^verbatim>\<open>Stored\<close>), and the package then has the new
  status.
\<close>

theorem update_not_found_iff:
  assumes "reachable d"
  shows "(fst (update_package_status d b ns) = Inl PackageNotFound
            \<longleftrightarrow> b \<notin> set (map pkg_barcode (Packages d)))
         \<and> (b \<notin> set (map pkg_barcode (Packages d))
              \<longrightarrow> snd (update_package_status d b ns) = d)
         \<and> (b \<in> set (map pkg_barcode (Packages d))
              \<longrightarrow> fst (update_package_status d b ns) = Inr ()
                  \<and> (\<forall>p \<in> set (Packages (snd (update_package_status d b ns))).
                       pkg_barcode p = b \<longrightarrow> pkg_status p = ns))"
proof -
  have s: "search_package d b = None \<longleftrightarrow> b \<notin> set (map pkg_barcode (Packages d))"
    using assms by (simp add: reachable_well_formed search_package_None_iff)
  have 1: "fst (update_package_status d b ns) = Inl PackageNotFound
            \<longleftrightarrow> b \<notin> set (map pkg_barcode (Packages d))"
    using s by (simp add: update_failure_iff)
  have 2: "snd (update_package_status d b ns) = d"
    if "b \<notin> set (map pkg_barcode (Packages d))"
    using that 1 by (simp add: update_failure_unchanged)
  have 3: "fst (update_package_status d b ns) = Inr ()"
    if "b \<in> set (map pkg_barcode (Packages d))"
    using that s by (simp add: update_success_iff)
  have 4: "\<forall>p \<in> set (Packages (snd (update_package_status d b ns))).
             pkg_barcode p = b \<longrightarrow> pkg_status p = ns"
    if "b \<in> set (map pkg_barcode (Packages d))"
    unfolding Packages_update [OF 3 [OF that]] by (blast dest: status_after_update)
  show ?thesis using 1 2 3 4 by (intro conjI impI) assumption+
qed

theorem update_not_found_iff_witness:
  "reachable (run [express_package ''X01'', UpdateStatus ''X01'' ''Delivered''] initial_db)
   \<and> map package_summary
        (Packages (run [express_package ''X01'', UpdateStatus ''X01'' ''Delivered''] initial_db))
      = [(''X01'', ''Delivered'', Some 21)]
   \<and> fst (update_package_status
            (run [express_package ''X01'', UpdateStatus ''X01'' ''Delivered''] initial_db)
            ''X01'' ''Stored'') = Inr ()
   \<and> update_package_status
        (run [express_package ''X01'', UpdateStatus ''X01'' ''Delivered''] initial_db)
        ''X02'' ''Stored''
      = (Inl PackageNotFound,
         run [express_package ''X01'', UpdateStatus ''X01'' ''Delivered''] initial_db)"
proof -
  let ?d = "run [express_package ''X01'', UpdateStatus ''X01'' ''Delivered''] initial_db"
  have r: "reachable ?d" by (rule reachable_run) (rule reachable.init)
  have m: "map package_summary (Packages ?d) = [(''X01'', ''Delivered'', Some 21)]"
    by code_simp
  then have "map (fst \<circ> package_summary) (Packages ?d) = [''X01'']"
    unfolding map_map [symmetric] by simp
  moreover have "fst \<circ> package_summary = pkg_barcode"
    by (auto simp: package_summary_def)
  ultimately have b: "map pkg_barcode (Packages ?d) = [''X01'']" by simp
  show ?thesis
    using r m b
      update_not_found_iff [OF r, of "''X01''" "''Stored''"]
      update_not_found_iff [OF r, of "''X02''" "''Stored''"]
    by (simp add: prod_eq_iff)
qed

subsection \<open>The audit trail\<close>

text \<open>
  Claim C9. A successful registration appends exactly one audit entry, with action
  \<^verbatim>\<open>REGISTERED\<close>, new status \<^verbatim>\<open>Stored\<close> and the code of the location assigned to the
  new package; a successful status update appends exactly one entry, with action
  \<^verbatim>\<open>STATUS_UPDATE\<close>, the status the package had and the new status; a failed operation
  leaves the audit trail (and the rest of the state) as it was.
\<close>

theorem audit_completeness:
  "(case register_package d b w l wd h dst pr of
      (Inr u, d') \<Rightarrow>
        \<exists>p loc. Packages d' = Packages d @ [p]
          \<and> pkg_barcode p = b
          \<and> find (\<lambda>x. loc_id x = the (pkg_location_id p)) (Locations d') = Some loc
          \<and> pkg_location_id p = Some (loc_id loc)
          \<and> AuditTrail d' = AuditTrail d @
               [\<lparr>aud_package_id = pkg_id p, aud_action = ''REGISTERED'',
                 aud_old_status = None, aud_new_status = Some ''Stored'',
                 aud_old_location = None, aud_new_location = Some (loc_code loc),
                 aud_notes = ''Package categorized as '' @ snd (categorize_package w pr dst)\<rparr>]
    | (Inl e, d') \<Rightarrow> d' = d)
   \<and> (case update_package_status d b ns of
        (Inr u, d') \<Rightarrow>
          \<exists>p. find (\<lambda>p. pkg_barcode p = b) (Packages d) = Some p
            \<and> AuditTrail d' = AuditTrail d @
                 [\<lparr>aud_package_id = pkg_id p, aud_action = ''STATUS_UPDATE'',
                   aud_old_status = Some (pkg_status p), aud_new_status = Some ns,
                   aud_old_location = None, aud_new_location = None,
                   aud_notes = ''Status changed from '' @ pkg_status p @ '' to '' @ ns\<rparr>]
      | (Inl e, d') \<Rightarrow> d' = d)"
proof -
  have reg: "case register_package d b w l wd h dst pr of
      (Inr u, d') \<Rightarrow>
        \<exists>p loc. Packages d' = Packages d @ [p]
          \<and> pkg_barcode p = b
          \<and> find (\<lambda>x. loc_id x = the (pkg_location_id p)) (Locations d') = Some loc
          \<and> pkg_location_id p = Some (loc_id loc)
          \<and> AuditTrail d' = AuditTrail d @
               [\<lparr>aud_package_id = pkg_id p, aud_action = ''REGISTERED'',
                 aud_old_status = None, aud_new_status = Some ''Stored'',
                 aud_old_location = None, aud_new_location = Some (loc_code loc),
                 aud_notes = ''Package categorized as '' @ snd (categorize_package w pr dst)\<rparr>]
    | (Inl e, d') \<Rightarrow> d' = d"
  proof (cases "fst (register_package d b w l wd h dst pr)")
    case (Inl e)
    with register_failure_unchanged [OF Inl] show ?thesis
      by (cases "register_package d b w l wd h dst pr") simp
  next
    case (Inr u)
    from Inr obtain lid loc where
      f: "find (\<lambda>x. loc_id x = lid) (set_occupied lid True (Locations d)) = Some loc"
      and pk: "Packages (snd (register_package d b w l wd h dst pr)) =
         Packages d @
           [\<lparr>pkg_id = next_rowid (map pkg_id (Packages d)), pkg_barcode = b,
             pkg_weight = w, pkg_length = l, pkg_width = wd, pkg_height = h,
             pkg_destination = dst, pkg_priority = pr,
             pkg_category_id = fst (categorize_package w pr dst),
             pkg_location_id = Some lid, pkg_status = ''Stored''\<rparr>]"
      and lc: "Locations (snd (register_package d b w l wd h dst pr)) =
         set_occupied lid True (Locations d)"
      and au: "AuditTrail (snd (register_package d b w l wd h dst pr)) =
         AuditTrail d @
           [\<lparr>aud_package_id = next_rowid (map pkg_id (Packages d)),
             aud_action = ''REGISTERED'', aud_old_status = None,
             aud_new_status = Some ''Stored'', aud_old_location = None,
             aud_new_location = Some (loc_code loc),
             aud_notes = ''Package categorized as '' @ snd (categorize_package w pr dst)\<rparr>]"
      by (rule register_success_elim)
    from f have "loc_id loc = lid" by (auto simp: find_Some_iff)
    with Inr f pk lc au show ?thesis
      by (cases "register_package d b w l wd h dst pr") auto
  qed
  have upd: "case update_package_status d b ns of
        (Inr u, d') \<Rightarrow>
          \<exists>p. find (\<lambda>p. pkg_barcode p = b) (Packages d) = Some p
            \<and> AuditTrail d' = AuditTrail d @
                 [\<lparr>aud_package_id = pkg_id p, aud_action = ''STATUS_UPDATE'',
                   aud_old_status = Some (pkg_status p), aud_new_status = Some ns,
                   aud_old_location = None, aud_new_location = None,
                   aud_notes = ''Status changed from '' @ pkg_status p @ '' to '' @ ns\<rparr>]
      | (Inl e, d') \<Rightarrow> d' = d"
    by (auto simp: update_package_status_def search_package_def Let_def
             split: option.splits)
  from reg upd show ?thesis ..
qed

theorem audit_completeness_witness:
  "map audit_summary
     (AuditTrail (run [express_package ''X01'', UpdateStatus ''X01'' ''In Transit''] initial_db))
     = [(1, ''REGISTERED'', None, Some ''Stored'', Some ''B01-01''),
        (1, ''STATUS_UPDATE'', Some ''Stored'', Some ''In Transit'', None)]
   \<and> (case register_package initial_db ''X01''
             (Finite 25.0) (Finite 30) (Finite 20) (Finite 15) ''New York, USA'' ''Express'' of
        (Inr u, d') \<Rightarrow> length (AuditTrail d') = Suc (length (AuditTrail initial_db))
      | (Inl e, d') \<Rightarrow> d' = initial_db)
   \<and> (case update_package_status initial_db ''X01'' ''In Transit'' of
        (Inr u, d') \<Rightarrow> length (AuditTrail d') = Suc (length (AuditTrail initial_db))
      | (Inl e, d') \<Rightarrow> d' = initial_db)"
proof -
  have 1: "map audit_summary
     (AuditTrail (run [express_package ''X01'', UpdateStatus ''X01'' ''In Transit''] initial_db))
     = [(1, ''REGISTERED'', None, Some ''Stored'', Some ''B01-01''),
        (1, ''STATUS_UPDATE'', Some ''Stored'', Some ''In Transit'', None)]"
    by code_simp
  show ?thesis
    using 1
      audit_completeness [where d = initial_db and b = "''X01''" and w = "Finite 25.0"
        and l = "Finite 30" and wd = "Finite 20" and h = "Finite 15"
        and dst = "''New York, USA''" and pr = "''Express''" and ns = "''In Transit''"]
    by (auto split: prod.splits sum.splits)
qed

subsection \<open>The frame of a status update\<close>

text \<open>
  Claim C10. A status update to a status other than \<^verbatim>\<open>delivered\<close> (in any letter case)
  changes no location row and no category row, keeps every package row whose barcode is
  another one as it is, and in a row with the barcode changes at most the status: the
  location reference, category, barcode, dimensions, destination and priority stay.
\<close>

theorem update_frame:
  assumes "lower ns \<noteq> ''delivered''"
  shows "Locations (snd (update_package_status d b ns)) = Locations d
         \<and> Categories (snd (update_package_status d b ns)) = Categories d
         \<and> length (Packages (snd (update_package_status d b ns))) = length (Packages d)
         \<and> (\<forall>i < length (Packages d).
              (pkg_barcode (Packages d ! i) \<noteq> b
                 \<longrightarrow> Packages (snd (update_package_status d b ns)) ! i = Packages d ! i)
              \<and> (pkg_barcode (Packages d ! i) = b
                 \<longrightarrow> Packages (snd (update_package_status d b ns)) ! i
                      = (Packages d ! i)
                          \<lparr>pkg_status :=
                             pkg_status (Packages (snd (update_package_status d b ns)) ! i)\<rparr>))"
proof (cases "fst (update_package_status d b ns)")
  case (Inl e)
  then show ?thesis by (simp add: update_failure_unchanged)
next
  case (Inr u)
  show ?thesis
    using assms
    by (simp add: Packages_update [OF Inr] Locations_update_other Categories_update)
qed

theorem update_frame_witness:
  "lower ''In Transit'' \<noteq> ''delivered''
   \<and> map package_summary
        (Packages (run [express_package ''X01'', express_package ''X02'',
                        UpdateStatus ''X01'' ''In Transit''] initial_db))
      = [(''X01'', ''In Transit'', Some 21), (''X02'', ''Stored'', Some 22)]
   \<and> Locations (snd (update_package_status
           (run [express_package ''X01'', express_package ''X02''] initial_db)
           ''X01'' ''In Transit''))
      = Locations (run [express_package ''X01'', express_package ''X02''] initial_db)"
proof -
  have h: "lower ''In Transit'' \<noteq> ''delivered''" by code_simp
  have 1: "map package_summary
        (Packages (run [express_package ''X01'', express_package ''X02'',
                        UpdateStatus ''X01'' ''In Transit''] initial_db))
      = [(''X01'', ''In Transit'', Some 21), (''X02'', ''Stored'', Some 22)]"
    by code_simp
  show ?thesis
    using h 1
      update_frame [OF h,
        where d = "run [express_package ''X01'', express_package ''X02''] initial_db"
          and b = "''X01''"]
    by simp
qed

subsection \<open>Disciplined runs keep the occupancy flags consistent\<close>

lemma disciplined_reachable: "disciplined d \<Longrightarrow> reachable d"
proof (induction rule: disciplined.induct)
  case init
  show ?case by (rule reachable.init)
next
  case (register d b w l wd h dst pr)
  then show ?case by (intro reachable.step)
next
  case (update d b ns)
  then show ?case by (intro reachable.step)
qed

lemma loc_id_seed_location: "map loc_id (map seed_location xs) = map Suc xs"
  by (simp add: seed_location_def)

lemma well_formed_loc_ids:
  assumes "well_formed d"
  shows "map loc_id (Locations d) = map Suc [0..<100]"
proof -
  have "map loc_id (Locations d) = map loc_id (map (\<lambda>l. l\<lparr>is_occupied := False\<rparr>) (Locations d))"
    by simp
  also have "\<dots> = map loc_id (map seed_location [0..<100])"
    using assms unfolding well_formed_def by metis
  finally show ?thesis by (simp only: loc_id_seed_location)
qed

lemma well_formed_distinct_loc_ids: "well_formed d \<Longrightarrow> distinct (map loc_id (Locations d))"
  by (simp add: well_formed_loc_ids distinct_map)

lemma same_loc_id:
  "distinct (map loc_id ls) \<Longrightarrow> l \<in> set ls \<Longrightarrow> x \<in> set ls \<Longrightarrow> loc_id l = loc_id x \<Longrightarrow> l = x"
  by (auto simp: distinct_map dest: inj_onD)

lemma in_set_occupied:
  "l \<in> set ls \<Longrightarrow>
     (if loc_id l = lid then l\<lparr>is_occupied := v\<rparr> else l) \<in> set (set_occupied lid v ls)"
  unfolding set_occupied_def set_map by (rule image_eqI [where x = l]) simp_all

lemma set_occupied_origin:
  "l' \<in> set (set_occupied lid v ls) \<Longrightarrow>
     \<exists>l \<in> set ls. l' = (if loc_id l = lid then l\<lparr>is_occupied := v\<rparr> else l)"
  unfolding set_occupied_def by (simp only: set_map image_iff)

lemma not_delivered_Stored: "\<not> delivered ''Stored''"
  by code_simp

lemma consistent_register:
  assumes wf: "well_formed d" and oc: "occupancy_consistent d"
  shows "occupancy_consistent (snd (register_package d b w l wd h dst pr))"
proof (cases "fst (register_package d b w l wd h dst pr)")
  case (Inl e)
  then show ?thesis using oc by (simp add: register_failure_unchanged)
next
  case (Inr u)
  define pn where "pn lid =
     \<lparr>pkg_id = next_rowid (map pkg_id (Packages d)), pkg_barcode = b,
       pkg_weight = w, pkg_length = l, pkg_width = wd, pkg_height = h,
       pkg_destination = dst, pkg_priority = pr,
       pkg_category_id = fst (categorize_package w pr dst),
       pkg_location_id = Some lid, pkg_status = ''Stored''\<rparr>" for lid
  from Inr obtain lid loc where
    av: "find_available_location d (fst (categorize_package w pr dst)) = Some lid"
    and pk: "Packages (snd (register_package d b w l wd h dst pr)) = Packages d @ [pn lid]"
    and lc: "Locations (snd (register_package d b w l wd h dst pr)) =
               set_occupied lid True (Locations d)"
    unfolding pn_def by (rule register_success_elim)
  from find_available_location_Some [OF av] obtain x where
    x: "x \<in> set (Locations d)" "loc_id x = lid" "\<not> is_occupied x"
    by blast
  have pn: "undelivered (pn lid)" "pkg_location_id (pn lid) = Some lid"
    by (simp_all add: pn_def undelivered_def not_delivered_Stored)
  have dl: "distinct (map loc_id (Locations d))"
    using wf by (rule well_formed_distinct_loc_ids)
  from oc have
    a: "\<And>p. p \<in> set (Packages d) \<Longrightarrow> undelivered p \<Longrightarrow>
          \<exists>l \<in> set (Locations d). pkg_location_id p = Some (loc_id l) \<and> is_occupied l"
    and b: "\<And>l. l \<in> set (Locations d) \<Longrightarrow> is_occupied l \<Longrightarrow>
          \<exists>p \<in> set (Packages d). undelivered p \<and> pkg_location_id p = Some (loc_id l)"
    and c: "distinct (map pkg_location_id (filter undelivered (Packages d)))"
    unfolding occupancy_consistent_def by blast+
  have a': "\<exists>l' \<in> set (set_occupied lid True (Locations d)).
              pkg_location_id p = Some (loc_id l') \<and> is_occupied l'"
    if p: "p \<in> set (Packages d @ [pn lid])" and u: "undelivered p" for p
  proof (cases "p = pn lid")
    case True
    have "(if loc_id x = lid then x\<lparr>is_occupied := True\<rparr> else x)
            \<in> set (set_occupied lid True (Locations d))"
      using x(1) by (rule in_set_occupied)
    with x(2) have "x\<lparr>is_occupied := True\<rparr> \<in> set (set_occupied lid True (Locations d))"
      by simp
    moreover have "pkg_location_id p = Some (loc_id (x\<lparr>is_occupied := True\<rparr>))"
      using True pn(2) x(2) by simp
    ultimately show ?thesis by (intro bexI [where x = "x\<lparr>is_occupied := True\<rparr>"]) simp_all
  next
    case False
    with p have "p \<in> set (Packages d)" by simp
    from a [OF this u] obtain l0 where
      l0: "l0 \<in> set (Locations d)" "pkg_location_id p = Some (loc_id l0)" "is_occupied l0"
      by blast
    let ?l' = "if loc_id l0 = lid then l0\<lparr>is_occupied := True\<rparr> else l0"
    have "?l' \<in> set (set_occupied lid True (Locations d))"
      using l0(1) by (rule in_set_occupied)
    moreover have "loc_id ?l' = loc_id l0" "is_occupied ?l'"
      using l0(3) by simp_all
    ultimately show ?thesis using l0(2) by (intro bexI [where x = ?l']) simp_all
  qed
  have b': "\<exists>p \<in> set (Packages d @ [pn lid]).
              undelivered p \<and> pkg_location_id p = Some (loc_id l')"
    if l': "l' \<in> set (set_occupied lid True (Locations d))" and o: "is_occupied l'" for l'
  proof -
    from set_occupied_origin [OF l'] obtain l0 where
      l0: "l0 \<in> set (Locations d)"
        "l' = (if loc_id l0 = lid then l0\<lparr>is_occupied := True\<rparr> else l0)"
      by blast
    show ?thesis
    proof (cases "loc_id l0 = lid")
      case True
      with l0(2) have "loc_id l' = lid" by simp
      with pn show ?thesis by (intro bexI [where x = "pn lid"]) simp_all
    next
      case False
      with l0(2) have "l' = l0" by simp
      with l0(1) o b [of l0] obtain p where
        "p \<in> set (Packages d)" "undelivered p" "pkg_location_id p = Some (loc_id l')"
        by blast
      then show ?thesis by (intro bexI [where x = p]) simp_all
    qed
  qed
  have new: "Some lid \<notin> set (map pkg_location_id (filter undelivered (Packages d)))"
  proof
    assume "Some lid \<in> set (map pkg_location_id (filter undelivered (Packages d)))"
    then obtain p where p: "p \<in> set (Packages d)" "undelivered p" "pkg_location_id p = Some lid"
      by (auto simp only: set_map set_filter image_iff mem_Collect_eq)
    from a [OF p(1) p(2)] p(3) obtain l0 where
      l0: "l0 \<in> set (Locations d)" "loc_id l0 = lid" "is_occupied l0"
      by auto
    from same_loc_id [OF dl l0(1) x(1)] l0(2) x(2) have "l0 = x" by simp
    with l0(3) x(3) show False by simp
  qed
  have c': "distinct (map pkg_location_id (filter undelivered (Packages d @ [pn lid])))"
    using c new pn by simp
  show ?thesis
    unfolding occupancy_consistent_def pk lc using a' b' c' by blast
qed

lemma find_map_same:
  "(\<And>x. P (f x) = P x) \<Longrightarrow> find P (map f xs) = map_option f (find P xs)"
  by (induction xs) simp_all

lemma Locations_update_delivered:
  assumes "fst (update_package_status d b ns) = Inr u"
    and "lower ns = ''delivered''"
    and "find (\<lambda>p. pkg_barcode p = b) (Packages d) = Some pb"
    and "pkg_location_id pb = Some lid"
  shows "Locations (snd (update_package_status d b ns)) = set_occupied lid False (Locations d)"
proof -
  have "find (\<lambda>p. pkg_barcode p = b)
          (map (\<lambda>p. if pkg_barcode p = b then p\<lparr>pkg_status := ns\<rparr> else p) (Packages d))
        = map_option (\<lambda>p. if pkg_barcode p = b then p\<lparr>pkg_status := ns\<rparr> else p)
            (find (\<lambda>p. pkg_barcode p = b) (Packages d))"
    by (rule find_map_same) simp
  then show ?thesis
    using assms
    by (simp add: update_package_status_def Let_def split: option.splits)
qed

lemma consistent_update:
  assumes wf: "well_formed d" and oc: "occupancy_consistent d"
    and nd: "\<not> delivered_in d b"
  shows "occupancy_consistent (snd (update_package_status d b ns))"
proof (cases "fst (update_package_status d b ns)")
  case (Inl e)
  then show ?thesis using oc by (simp add: update_failure_unchanged)
next
  case (Inr u)
  define f :: "package \<Rightarrow> package"
    where "f = (\<lambda>p. if pkg_barcode p = b then p\<lparr>pkg_status := ns\<rparr> else p)"
  have f_loc: "pkg_location_id (f p) = pkg_location_id p"
    and f_bc: "pkg_barcode (f p) = pkg_barcode p"
    and f_st: "pkg_status (f p) = (if pkg_barcode p = b then ns else pkg_status p)"
    and f_id: "pkg_barcode p \<noteq> b \<Longrightarrow> f p = p" for p
    by (simp_all add: f_def)
  have pk: "Packages (snd (update_package_status d b ns)) = map f (Packages d)"
    unfolding f_def by (rule Packages_update [OF Inr])
  have dl: "distinct (map loc_id (Locations d))"
    using wf by (rule well_formed_distinct_loc_ids)
  have db: "distinct (map pkg_barcode (Packages d))"
    using wf unfolding well_formed_def by blast
  from oc have
    a: "\<And>p. p \<in> set (Packages d) \<Longrightarrow> undelivered p \<Longrightarrow>
          \<exists>l \<in> set (Locations d). pkg_location_id p = Some (loc_id l) \<and> is_occupied l"
    and b: "\<And>l. l \<in> set (Locations d) \<Longrightarrow> is_occupied l \<Longrightarrow>
          \<exists>p \<in> set (Packages d). undelivered p \<and> pkg_location_id p = Some (loc_id l)"
    and c: "distinct (map pkg_location_id (filter undelivered (Packages d)))"
    unfolding occupancy_consistent_def by blast+
  have und_b: "undelivered p" if "p \<in> set (Packages d)" "pkg_barcode p = b" for p
    using nd that unfolding delivered_in_def undelivered_def by blast
  show ?thesis
  proof (cases "delivered ns")
    case False
    have lc: "Locations (snd (update_package_status d b ns)) = Locations d"
      using False unfolding delivered_def by (rule Locations_update_other)
    have und_f: "undelivered (f p) = undelivered p" if "p \<in> set (Packages d)" for p
      using und_b [OF that] False by (cases "pkg_barcode p = b") (simp_all add: undelivered_def f_st)
    have a': "\<exists>l \<in> set (Locations d). pkg_location_id p' = Some (loc_id l) \<and> is_occupied l"
      if "p' \<in> set (map f (Packages d))" "undelivered p'" for p'
    proof -
      from that(1) obtain p where p: "p \<in> set (Packages d)" "p' = f p"
        by (auto simp only: set_map image_iff)
      with that(2) und_f have "undelivered p" by simp
      from a [OF p(1) this] show ?thesis unfolding p(2) f_loc .
    qed
    have b': "\<exists>p' \<in> set (map f (Packages d)). undelivered p' \<and> pkg_location_id p' = Some (loc_id l)"
      if "l \<in> set (Locations d)" "is_occupied l" for l
    proof -
      from b [OF that] obtain p where
        p: "p \<in> set (Packages d)" "undelivered p" "pkg_location_id p = Some (loc_id l)"
        by blast
      have "f p \<in> set (map f (Packages d))" using p(1) by simp
      moreover have "undelivered (f p)" using p(1,2) und_f by simp
      moreover have "pkg_location_id (f p) = Some (loc_id l)" using p(3) by (simp add: f_loc)
      ultimately show ?thesis by blast
    qed
    have "filter undelivered (map f (Packages d)) = map f (filter (undelivered \<circ> f) (Packages d))"
      by (rule filter_map)
    also have "filter (undelivered \<circ> f) (Packages d) = filter undelivered (Packages d)"
      by (rule filter_cong) (simp_all add: und_f)
    finally have "map pkg_location_id (filter undelivered (map f (Packages d)))
                    = map pkg_location_id (filter undelivered (Packages d))"
      by (simp add: f_loc comp_def)
    with c have c': "distinct (map pkg_location_id (filter undelivered (map f (Packages d))))"
      by simp
    show ?thesis
      unfolding occupancy_consistent_def pk lc using a' b' c' by blast
  next
    case True
    from Inr have "search_package d b \<noteq> None"
      by (auto simp: update_package_status_def split: option.splits)
    then obtain pb where fb: "find (\<lambda>p. pkg_barcode p = b) (Packages d) = Some pb"
      by (auto dest: search_package_Some)
    then have pb: "pb \<in> set (Packages d)" "pkg_barcode pb = b"
      by (auto simp: find_Some_iff)
    from a [OF pb(1) und_b [OF pb]] obtain lb where
      lb: "lb \<in> set (Locations d)" "pkg_location_id pb = Some (loc_id lb)" "is_occupied lb"
      by blast
    have lc: "Locations (snd (update_package_status d b ns))
                = set_occupied (loc_id lb) False (Locations d)"
      using Inr True fb lb(2) unfolding delivered_def by (rule Locations_update_delivered)
    have und_f: "undelivered (f p) \<longleftrightarrow> undelivered p \<and> pkg_barcode p \<noteq> b" for p
      using True by (cases "pkg_barcode p = b") (simp_all add: undelivered_def f_st)
    have only_pb: "p = pb" if "p \<in> set (Packages d)" "pkg_barcode p = b" for p
      using db that pb by (auto simp: distinct_map dest: inj_onD)
    have only_loc: "p = pb"
      if "p \<in> set (Packages d)" "undelivered p" "pkg_location_id p = Some (loc_id lb)" for p
    proof -
      have i: "inj_on pkg_location_id (set (filter undelivered (Packages d)))"
        using c by (simp only: distinct_map)
      have 1: "p \<in> set (filter undelivered (Packages d))" using that by simp
      have 2: "pb \<in> set (filter undelivered (Packages d))"
        using pb und_b [OF pb] by simp
      have "pkg_location_id p = pkg_location_id pb" using that(3) lb(2) by simp
      with i show ?thesis using 1 2 by (rule inj_onD)
    qed
    have a': "\<exists>l' \<in> set (set_occupied (loc_id lb) False (Locations d)).
                pkg_location_id p' = Some (loc_id l') \<and> is_occupied l'"
      if "p' \<in> set (map f (Packages d))" "undelivered p'" for p'
    proof -
      from that(1) obtain p where p: "p \<in> set (Packages d)" "p' = f p"
        by (auto simp only: set_map image_iff)
      with that(2) und_f have u: "undelivered p" and nb: "pkg_barcode p \<noteq> b" by simp_all
      from a [OF p(1) u] obtain l0 where
        l0: "l0 \<in> set (Locations d)" "pkg_location_id p = Some (loc_id l0)" "is_occupied l0"
        by blast
      have "loc_id l0 \<noteq> loc_id lb"
      proof
        assume "loc_id l0 = loc_id lb"
        with l0(2) only_loc [OF p(1) u] have "p = pb" by simp
        with nb pb(2) show False by simp
      qed
      moreover have "(if loc_id l0 = loc_id lb then l0\<lparr>is_occupied := False\<rparr> else l0)
                       \<in> set (set_occupied (loc_id lb) False (Locations d))"
        using l0(1) by (rule in_set_occupied)
      ultimately have "l0 \<in> set (set_occupied (loc_id lb) False (Locations d))" by simp
      then show ?thesis using l0(2,3) unfolding p(2) f_loc by blast
    qed
    have b': "\<exists>p' \<in> set (map f (Packages d)).
                undelivered p' \<and> pkg_location_id p' = Some (loc_id l')"
      if l': "l' \<in> set (set_occupied (loc_id lb) False (Locations d))" and o: "is_occupied l'"
      for l'
    proof -
      from set_occupied_origin [OF l'] obtain l0 where
        l0: "l0 \<in> set (Locations d)"
          "l' = (if loc_id l0 = loc_id lb then l0\<lparr>is_occupied := False\<rparr> else l0)"
        by blast
      have ne: "loc_id l0 \<noteq> loc_id lb"
      proof
        assume "loc_id l0 = loc_id lb"
        with l0(2) o show False by simp
      qed
      with l0(2) have eq: "l' = l0" by simp
      from b [OF l0(1)] o eq obtain p where
        p: "p \<in> set (Packages d)" "undelivered p" "pkg_location_id p = Some (loc_id l0)"
        by blast
      have nb: "pkg_barcode p \<noteq> b"
      proof
        assume "pkg_barcode p = b"
        from only_pb [OF p(1) this] p(3) lb(2) ne show False by simp
      qed
      have "f p \<in> set (map f (Packages d))" using p(1) by simp
      moreover have "undelivered (f p)" using p(2) nb by (simp add: und_f)
      moreover have "pkg_location_id (f p) = Some (loc_id l')" using p(3) eq by (simp add: f_loc)
      ultimately show ?thesis by blast
    qed
    have "filter undelivered (map f (Packages d)) = map f (filter (undelivered \<circ> f) (Packages d))"
      by (rule filter_map)
    also have "filter (undelivered \<circ> f) (Packages d)
                 = filter (\<lambda>p. pkg_barcode p \<noteq> b) (filter undelivered (Packages d))"
      by (simp add: und_f comp_def conj_commute)
    finally have "map pkg_location_id (filter undelivered (map f (Packages d)))
                    = map pkg_location_id
                        (filter (\<lambda>p. pkg_barcode p \<noteq> b) (filter undelivered (Packages d)))"
      by (simp add: f_loc comp_def)
    with c have c': "distinct (map pkg_location_id (filter undelivered (map f (Packages d))))"
      by (simp only: distinct_map_filter)
    show ?thesis
      unfolding occupancy_consistent_def pk lc using a' b' c' by blast
  qed
qed

lemma consistent_initial: "occupancy_consistent initial_db"
  by (simp add: occupancy_consistent_def initial_db_closed seed_location_def)

lemma disciplined_consistent: "disciplined d \<Longrightarrow> occupancy_consistent d"
proof (induction rule: disciplined.induct)
  case init
  show ?case by (rule consistent_initial)
next
  case (register d b w l wd h dst pr)
  then show ?case
    by (simp add: consistent_register reachable_well_formed disciplined_reachable)
next
  case (update d b ns)
  then show ?case
    by (simp add: consistent_update reachable_well_formed disciplined_reachable)
qed

subsection \<open>One package per location\<close>

lemma not_delivered_InTransit: "\<not> delivered ''InTransit''"
  by code_simp

text \<open>
  Claim C6, as stated: in every reachable state no two packages whose status is
  \<^verbatim>\<open>Stored\<close> or \<^verbatim>\<open>InTransit\<close> share a location id. It fails after four calls: a package is
  registered (location 21) and delivered, which frees the location but leaves it on the
  package row; a second package is registered and gets location 21; the first package is
  set back to \<^verbatim>\<open>Stored\<close>. Both packages are then \<^verbatim>\<open>Stored\<close> at location 21.
\<close>

theorem shared_location_counterexample:
  "reachable (run [express_package ''X01'', UpdateStatus ''X01'' ''Delivered'',
                   express_package ''X02'', UpdateStatus ''X01'' ''Stored''] initial_db)
   \<and> map package_summary
        (Packages (run [express_package ''X01'', UpdateStatus ''X01'' ''Delivered'',
                        express_package ''X02'', UpdateStatus ''X01'' ''Stored''] initial_db))
      = [(''X01'', ''Stored'', Some 21), (''X02'', ''Stored'', Some 21)]"
proof
  show "reachable (run [express_package ''X01'', UpdateStatus ''X01'' ''Delivered'',
                   express_package ''X02'', UpdateStatus ''X01'' ''Stored''] initial_db)"
    by (rule reachable_run) (rule reachable.init)
  show "map package_summary
        (Packages (run [express_package ''X01'', UpdateStatus ''X01'' ''Delivered'',
                        express_package ''X02'', UpdateStatus ''X01'' ''Stored''] initial_db))
      = [(''X01'', ''Stored'', Some 21), (''X02'', ''Stored'', Some 21)]"
    by code_simp
qed

text \<open>
  Claim C6, amended. In every state reached by a disciplined run (registrations and
  status updates from the initial database, none of the updates applied to a package
  that is already delivered), no two packages that are not delivered, in particular no
  two whose status is \<^verbatim>\<open>Stored\<close> or \<^verbatim>\<open>InTransit\<close>, share a location id.
\<close>

theorem disciplined_unique_location:
  assumes "disciplined d"
    and "p \<in> set (Packages d)" and "q \<in> set (Packages d)"
    and "pkg_barcode p \<noteq> pkg_barcode q"
    and "pkg_status p \<in> {''Stored'', ''InTransit''} \<or> \<not> delivered (pkg_status p)"
    and "pkg_status q \<in> {''Stored'', ''InTransit''} \<or> \<not> delivered (pkg_status q)"
  shows "pkg_location_id p \<noteq> pkg_location_id q"
proof
  assume eq: "pkg_location_id p = pkg_location_id q"
  have u: "undelivered p" "undelivered q"
    using assms(5,6) not_delivered_Stored not_delivered_InTransit
    unfolding undelivered_def by auto
  have "distinct (map pkg_location_id (filter undelivered (Packages d)))"
    using disciplined_consistent [OF assms(1)] unfolding occupancy_consistent_def by blast
  then have i: "inj_on pkg_location_id (set (filter undelivered (Packages d)))"
    by (simp only: distinct_map)
  have 1: "p \<in> set (filter undelivered (Packages d))" using assms(2) u by simp
  have 2: "q \<in> set (filter undelivered (Packages d))" using assms(3) u by simp
  from i eq 1 2 have "p = q" by (rule inj_onD)
  with assms(4) show False by simp
qed

theorem disciplined_unique_location_witness:
  "disciplined (run [express_package ''X01'', express_package ''X02''] initial_db)
   \<and> map package_summary (Packages (run [express_package ''X01'', express_package ''X02''] initial_db))
      = [(''X01'', ''Stored'', Some 21), (''X02'', ''Stored'', Some 22)]
   \<and> pkg_location_id (Packages (run [express_package ''X01'', express_package ''X02''] initial_db) ! 0)
      \<noteq> pkg_location_id
          (Packages (run [express_package ''X01'', express_package ''X02''] initial_db) ! 1)"
proof -
  let ?d = "run [express_package ''X01'', express_package ''X02''] initial_db"
  have d: "disciplined ?d"
    unfolding run_def express_package_def
    by (simp del: exec.simps) (intro disciplined.register disciplined.init)
  have s: "map package_summary (Packages ?d)
             = [(''X01'', ''Stored'', Some 21), (''X02'', ''Stored'', Some 22)]"
    by code_simp
  have "length (map package_summary (Packages ?d)) = 2"
    unfolding s by simp
  then have len: "length (Packages ?d) = 2" by simp
  have "map package_summary (Packages ?d) ! 0 = (''X01'', ''Stored'', Some 21)"
    "map package_summary (Packages ?d) ! 1 = (''X02'', ''Stored'', Some 22)"
    unfolding s by simp_all
  then have 0: "package_summary (Packages ?d ! 0) = (''X01'', ''Stored'', Some 21)"
    and 1: "package_summary (Packages ?d ! 1) = (''X02'', ''Stored'', Some 22)"
    using len by simp_all
  have m: "Packages ?d ! 0 \<in> set (Packages ?d)" "Packages ?d ! 1 \<in> set (Packages ?d)"
    using len by simp_all
  have b: "pkg_barcode (Packages ?d ! 0) \<noteq> pkg_barcode (Packages ?d ! 1)"
    using 0 1 by (simp add: package_summary_def)
  have st: "pkg_status (Packages ?d ! 0) \<in> {''Stored'', ''InTransit''}
              \<or> \<not> delivered (pkg_status (Packages ?d ! 0))"
    "pkg_status (Packages ?d ! 1) \<in> {''Stored'', ''InTransit''}
              \<or> \<not> delivered (pkg_status (Packages ?d ! 1))"
    using 0 1 by (simp_all add: package_summary_def)
  show ?thesis
    using d s disciplined_unique_location [OF d m b st] by simp
qed

subsection \<open>Occupancy conservation\<close>

lemma counts_after_redelivery:
  "zone_counts exactly_Delivered
     (run [express_package ''X01'', UpdateStatus ''X01'' ''Delivered'',
           UpdateStatus ''X01'' ''Stored''] initial_db) ''B'' = (0, 1)"
  by code_simp

lemma counts_after_redelivery_any_case:
  "zone_counts delivered
     (run [express_package ''X01'', UpdateStatus ''X01'' ''Delivered'',
           UpdateStatus ''X01'' ''Stored''] initial_db) ''B'' = (0, 1)"
  by code_simp

text \<open>
  Claim C7, as stated: in every reachable state and for every zone, the number of
  occupied locations of the zone equals the number of packages that are not delivered
  and whose location lies in the zone. It fails after three calls: a package is
  registered in zone B, delivered (its location becomes free) and set back to
  \<^verbatim>\<open>Stored\<close>; zone B then has no occupied location and one package that is not
  delivered, whether ``delivered'' is read as the exact status or in any letter case.
\<close>

theorem occupancy_conservation_counterexample:
  "reachable (run [express_package ''X01'', UpdateStatus ''X01'' ''Delivered'',
                   UpdateStatus ''X01'' ''Stored''] initial_db)
   \<and> occupied_in_zone
        (run [express_package ''X01'', UpdateStatus ''X01'' ''Delivered'',
              UpdateStatus ''X01'' ''Stored''] initial_db) ''B''
      \<noteq> undelivered_in_zone exactly_Delivered
          (run [express_package ''X01'', UpdateStatus ''X01'' ''Delivered'',
                UpdateStatus ''X01'' ''Stored''] initial_db) ''B''
   \<and> occupied_in_zone
        (run [express_package ''X01'', UpdateStatus ''X01'' ''Delivered'',
              UpdateStatus ''X01'' ''Stored''] initial_db) ''B''
      \<noteq> undelivered_in_zone delivered
          (run [express_package ''X01'', UpdateStatus ''X01'' ''Delivered'',
                UpdateStatus ''X01'' ''Stored''] initial_db) ''B''"
proof -
  have "reachable (run [express_package ''X01'', UpdateStatus ''X01'' ''Delivered'',
                   UpdateStatus ''X01'' ''Stored''] initial_db)"
    by (rule reachable_run) (rule reachable.init)
  then show ?thesis
    using counts_after_redelivery counts_after_redelivery_any_case
    by (simp add: zone_counts_def)
qed

lemma find_loc_id:
  assumes "distinct (map loc_id ls)" and "l \<in> set ls"
  shows "find (\<lambda>x. loc_id x = loc_id l) ls = Some l"
proof -
  from assms(2) have "find (\<lambda>x. loc_id x = loc_id l) ls \<noteq> None"
    by (auto simp: find_None_iff)
  then obtain y where y: "find (\<lambda>x. loc_id x = loc_id l) ls = Some y" by auto
  then have "y \<in> set ls" "loc_id y = loc_id l" by (auto simp: find_Some_iff)
  with same_loc_id [OF assms(1) _ assms(2)] have "y = l" by simp
  with y show ?thesis by simp
qed

lemma length_filter_card:
  "distinct xs \<Longrightarrow> length (filter P xs) = card {x \<in> set xs. P x}"
  by (metis distinct_card distinct_filter set_filter)

text \<open>
  Claim C7, amended. In every state reached by a disciplined run and for every zone, the
  number of occupied locations of the zone equals the number of packages whose status is
  not \<^verbatim>\<open>delivered\<close> (in any letter case) and whose location lies in the zone.
\<close>

theorem disciplined_occupancy_conservation:
  assumes "disciplined d"
  shows "occupied_in_zone d z = undelivered_in_zone delivered d z"
proof -
  have wf: "well_formed d"
    using assms by (simp add: disciplined_reachable reachable_well_formed)
  have dl: "distinct (map loc_id (Locations d))"
    using wf by (rule well_formed_distinct_loc_ids)
  have db: "distinct (map pkg_barcode (Packages d))"
    using wf unfolding well_formed_def by blast
  from disciplined_consistent [OF assms] have
    a: "\<And>p. p \<in> set (Packages d) \<Longrightarrow> undelivered p \<Longrightarrow>
          \<exists>l \<in> set (Locations d). pkg_location_id p = Some (loc_id l) \<and> is_occupied l"
    and b: "\<And>l. l \<in> set (Locations d) \<Longrightarrow> is_occupied l \<Longrightarrow>
          \<exists>p \<in> set (Packages d). undelivered p \<and> pkg_location_id p = Some (loc_id l)"
    and c: "distinct (map pkg_location_id (filter undelivered (Packages d)))"
    unfolding occupancy_consistent_def by blast+
  define A where "A = {p \<in> set (Packages d). undelivered p \<and> package_zone d p = Some z}"
  define B where "B = {l \<in> set (Locations d). loc_zone l = z \<and> is_occupied l}"
  have zone: "package_zone d p = Some (loc_zone l)"
    if "l \<in> set (Locations d)" "pkg_location_id p = Some (loc_id l)" for p l
    using that find_loc_id [OF dl that(1)] by (simp add: package_zone_def)
  have lenB: "occupied_in_zone d z = card B"
    unfolding occupied_in_zone_def B_def
    using dl by (intro length_filter_card) (simp add: distinct_map)
  have "distinct (Packages d)"
    using db by (simp add: distinct_map)
  then have lenA: "undelivered_in_zone delivered d z = card A"
    unfolding undelivered_in_zone_def A_def undelivered_def
    by (rule length_filter_card)
  have injA: "inj_on pkg_location_id A"
  proof (rule inj_onI)
    fix p q assume "p \<in> A" "q \<in> A" "pkg_location_id p = pkg_location_id q"
    moreover have "inj_on pkg_location_id (set (filter undelivered (Packages d)))"
      using c by (simp only: distinct_map)
    ultimately show "p = q" unfolding A_def by (auto dest: inj_onD)
  qed
  have injB: "inj_on (\<lambda>l. Some (loc_id l)) B"
  proof (rule inj_onI)
    fix l x assume "l \<in> B" "x \<in> B" "Some (loc_id l) = Some (loc_id x)"
    then show "l = x" unfolding B_def using same_loc_id [OF dl] by simp
  qed
  have "pkg_location_id ` A = (\<lambda>l. Some (loc_id l)) ` B"
  proof (intro set_eqI iffI)
    fix v assume "v \<in> pkg_location_id ` A"
    then obtain p where p: "p \<in> set (Packages d)" "undelivered p"
      "package_zone d p = Some z" "v = pkg_location_id p"
      unfolding A_def by blast
    from a [OF p(1,2)] obtain l where
      l: "l \<in> set (Locations d)" "pkg_location_id p = Some (loc_id l)" "is_occupied l"
      by blast
    from zone [OF l(1,2)] p(3) have "loc_zone l = z" by simp
    with l have "l \<in> B" unfolding B_def by simp
    with l(2) p(4) show "v \<in> (\<lambda>l. Some (loc_id l)) ` B" by blast
  next
    fix v assume "v \<in> (\<lambda>l. Some (loc_id l)) ` B"
    then obtain l where l: "l \<in> set (Locations d)" "loc_zone l = z" "is_occupied l"
      "v = Some (loc_id l)"
      unfolding B_def by blast
    from b [OF l(1,3)] obtain p where
      p: "p \<in> set (Packages d)" "undelivered p" "pkg_location_id p = Some (loc_id l)"
      by blast
    from zone [OF l(1) p(3)] l(2) have "package_zone d p = Some z" by simp
    with p have "p \<in> A" unfolding A_def by simp
    with p(3) l(4) show "v \<in> pkg_location_id ` A" by (metis imageI)
  qed
  then have "card (pkg_location_id ` A) = card ((\<lambda>l. Some (loc_id l)) ` B)" by simp
  then have "card A = card B"
    using injA injB by (simp add: card_image)
  with lenA lenB show ?thesis by simp
qed

theorem disciplined_occupancy_conservation_witness:
  "disciplined (run [express_package ''X01'', express_package ''X02'',
                     UpdateStatus ''X01'' ''delivered''] initial_db)
   \<and> zone_counts delivered
        (run [express_package ''X01'', express_package ''X02'',
              UpdateStatus ''X01'' ''delivered''] initial_db) ''B'' = (1, 1)"
proof -
  let ?s = "run [express_package ''X01'', express_package ''X02''] initial_db"
  let ?d = "run [express_package ''X01'', express_package ''X02'',
                 UpdateStatus ''X01'' ''delivered''] initial_db"
  have d0: "disciplined ?s"
    unfolding run_def express_package_def
    by (simp del: exec.simps) (intro disciplined.register disciplined.init)
  have n: "\<not> delivered_in ?s ''X01''"
    by code_simp
  have e: "?d = exec (UpdateStatus ''X01'' ''delivered'') ?s"
    unfolding run_def by (simp del: exec.simps)
  have d: "disciplined ?d"
    unfolding e using d0 n by (rule disciplined.update)
  have o: "occupied_in_zone ?d ''B'' = 1" by code_simp
  show ?thesis
    using d o disciplined_occupancy_conservation [OF d, of "''B''"]
    by (simp add: zone_counts_def)
qed

subsection \<open>Delivery releases the location\<close>

lemma category_attainable:
  assumes "c \<in> {1, 2, 3, 4, 5}"
  shows "\<exists>w pr dst. w \<noteq> NaN \<and> fst (categorize_package w pr dst) = c"
proof -
  have 1: "fst (categorize_package (Finite 10.0) ''Standard'' ''Boston, USA'') = 1"
    by code_simp
  have 2: "fst (categorize_package (Finite 10.0) ''Express'' ''Boston, USA'') = 2"
    by code_simp
  have 3: "fst (categorize_package (Finite 2.5) ''Standard'' ''Boston, USA'') = 3"
    by code_simp
  have 4: "fst (categorize_package (Finite 75.0) ''Standard'' ''Boston, USA'') = 4"
    by code_simp
  have 5: "fst (categorize_package (Finite 10.0) ''Standard'' ''London, UK, International'') = 5"
    by code_simp
  have n: "Finite r \<noteq> NaN" for r by simp
  from assms consider "c = 1" | "c = 2" | "c = 3" | "c = 4" | "c = 5" by auto
  then show ?thesis
  proof cases
    case 1 with \<open>fst (categorize_package (Finite 10.0) ''Standard'' ''Boston, USA'') = 1\<close> n
    show ?thesis by blast
  next
    case 2 with \<open>fst (categorize_package (Finite 10.0) ''Express'' ''Boston, USA'') = 2\<close> n
    show ?thesis by blast
  next
    case 3 with \<open>fst (categorize_package (Finite 2.5) ''Standard'' ''Boston, USA'') = 3\<close> n
    show ?thesis by blast
  next
    case 4 with \<open>fst (categorize_package (Finite 75.0) ''Standard'' ''Boston, USA'') = 4\<close> n
    show ?thesis by blast
  next
    case 5
    with \<open>fst (categorize_package (Finite 10.0) ''Standard'' ''London, UK, International'') = 5\<close> n
    show ?thesis by blast
  qed
qed

lemma well_formed_location:
  assumes "well_formed d" and "x \<in> set (Locations d)"
  shows "loc_id x \<noteq> 0 \<and> loc_category_id x \<in> {1, 2, 3, 4, 5}"
proof -
  from assms(2) have "x\<lparr>is_occupied := False\<rparr>
                        \<in> set (map (\<lambda>l. l\<lparr>is_occupied := False\<rparr>) (Locations d))"
    by simp
  with assms(1) have "x\<lparr>is_occupied := False\<rparr> \<in> set (map seed_location [0..<100])"
    unfolding well_formed_def by metis
  then obtain i where i: "i < 100" "x\<lparr>is_occupied := False\<rparr> = seed_location i"
    by auto
  from i(2) have "loc_id (x\<lparr>is_occupied := False\<rparr>) = loc_id (seed_location i)"
    "loc_category_id (x\<lparr>is_occupied := False\<rparr>) = loc_category_id (seed_location i)"
    by simp_all
  then have "loc_id x = Suc i" "loc_category_id x = Suc (i div 20)"
    by (simp_all add: seed_location_def)
  moreover have "i div 20 < 5" using i(1) by simp
  ultimately show ?thesis by auto
qed

lemma well_formed_category_ids:
  "well_formed d \<Longrightarrow> set (map cat_id (Categories d)) = {1, 2, 3, 4, 5}"
  unfolding well_formed_def by (auto simp: seed_categories_def)

lemma filter_map_le:
  assumes "\<And>l. P (f l) \<Longrightarrow> P l"
  shows "length (filter P (map f ls)) \<le> length (filter P ls)"
  using assms by (induction ls) auto

lemma filter_map_less:
  assumes "\<And>l. P (f l) \<Longrightarrow> P l" and "x \<in> set ls" and "P x" and "\<not> P (f x)"
  shows "length (filter P (map f ls)) < length (filter P ls)"
  using assms(2)
proof (induction ls)
  case Nil
  then show ?case by simp
next
  case (Cons a ls)
  have le: "length (filter P (map f ls)) \<le> length (filter P ls)"
    using assms(1) by (rule filter_map_le)
  show ?case
  proof (cases "a = x")
    case True
    with assms(3,4) le show ?thesis by simp
  next
    case False
    with Cons have "length (filter P (map f ls)) < length (filter P ls)" by simp
    with assms(1) [of a] show ?thesis by auto
  qed
qed

lemma fresh_barcode: "\<exists>b. b \<notin> set (map pkg_barcode (Packages d))"
proof -
  have "infinite (UNIV :: string set)" by (rule infinite_UNIV_listI)
  then show ?thesis by (intro ex_new_if_finite) simp_all
qed

lemma run_Cons: "run (opn # ops) d = run ops (exec opn d)"
  by (simp add: run_def)

text \<open>
  A free location is handed out again: registering packages of its category, with fresh
  barcodes, fills the free locations of the category in row order until it is reached.
\<close>

lemma reuse_free_location:
  assumes "well_formed d" and "x \<in> set (Locations d)" and "\<not> is_occupied x"
  shows "\<exists>ops q. list_all is_register ops \<and> q \<in> set (Packages (run ops d))
           \<and> pkg_barcode q \<notin> set (map pkg_barcode (Packages d))
           \<and> pkg_status q = ''Stored'' \<and> pkg_location_id q = Some (loc_id x)"
  using assms
proof (induction "length (filter (\<lambda>l. loc_category_id l = loc_category_id x \<and> \<not> is_occupied l)
                            (Locations d))"
         arbitrary: d rule: less_induct)
  case less
  define c where "c = loc_category_id x"
  define P :: "location \<Rightarrow> bool"
    where "P = (\<lambda>l. loc_category_id l = c \<and> \<not> is_occupied l)"
  have cin: "c \<in> {1, 2, 3, 4, 5}"
    using well_formed_location [OF less.prems(1,2)] by (simp add: c_def)
  from category_attainable [OF cin] obtain w pr dst where
    cat: "w \<noteq> NaN" "fst (categorize_package w pr dst) = c"
    by blast
  from fresh_barcode obtain b where fresh: "b \<notin> set (map pkg_barcode (Packages d))"
    by blast
  have "\<not> pool_exhausted d c"
    using less.prems(2,3) unfolding pool_exhausted_def c_def by blast
  then obtain lid where av: "find_available_location d c = Some lid"
    using find_available_location_None [of d c] by auto
  from find_available_location_Some [OF av] obtain x0 where
    x0: "x0 \<in> set (Locations d)" "loc_id x0 = lid" "loc_category_id x0 = c"
      "\<not> is_occupied x0"
    by blast
  have lid0: "lid \<noteq> 0"
    using well_formed_location [OF less.prems(1) x0(1)] x0(2) by simp
  have ccat: "c \<in> set (map cat_id (Categories d))"
    using cin well_formed_category_ids [OF less.prems(1)] by simp
  let ?op = "Register b w (Finite 1) (Finite 1) (Finite 1) dst pr"
  have ok: "fst (register_package d b w (Finite 1) (Finite 1) (Finite 1) dst pr) = Inr ()"
    using fresh av lid0 cat ccat
    by (intro register_succeeds [where lid = lid]) simp_all
  define d1 where "d1 = snd (register_package d b w (Finite 1) (Finite 1) (Finite 1) dst pr)"
  define pn where "pn =
     \<lparr>pkg_id = next_rowid (map pkg_id (Packages d)), pkg_barcode = b,
       pkg_weight = w, pkg_length = Finite 1, pkg_width = Finite 1, pkg_height = Finite 1,
       pkg_destination = dst, pkg_priority = pr,
       pkg_category_id = fst (categorize_package w pr dst),
       pkg_location_id = Some lid, pkg_status = ''Stored''\<rparr>"
  from ok obtain lid' loc where
    av': "find_available_location d (fst (categorize_package w pr dst)) = Some lid'"
    and pk': "Packages (snd (register_package d b w (Finite 1) (Finite 1) (Finite 1) dst pr)) =
       Packages d @
         [\<lparr>pkg_id = next_rowid (map pkg_id (Packages d)), pkg_barcode = b,
           pkg_weight = w, pkg_length = Finite 1, pkg_width = Finite 1, pkg_height = Finite 1,
           pkg_destination = dst, pkg_priority = pr,
           pkg_category_id = fst (categorize_package w pr dst),
           pkg_location_id = Some lid', pkg_status = ''Stored''\<rparr>]"
    and lc': "Locations (snd (register_package d b w (Finite 1) (Finite 1) (Finite 1) dst pr)) =
       set_occupied lid' True (Locations d)"
    by (rule register_success_elim)
  from av av' cat(2) have "lid' = lid" by simp
  with pk' lc' have pk: "Packages d1 = Packages d @ [pn]"
    and lc: "Locations d1 = set_occupied lid True (Locations d)"
    unfolding d1_def pn_def by simp_all
  have pn: "pkg_barcode pn = b" "pkg_status pn = ''Stored''" "pkg_location_id pn = Some lid"
    by (simp_all add: pn_def)
  have ex: "exec ?op d = d1" by (simp add: d1_def)
  show ?case
  proof (cases "lid = loc_id x")
    case True
    have "list_all is_register [?op]" by simp
    moreover have "pn \<in> set (Packages (run [?op] d))"
      unfolding run_Cons ex by (simp add: run_def pk)
    ultimately show ?thesis
      using fresh pn True by blast
  next
    case False
    have wf1: "well_formed d1"
      unfolding d1_def using less.prems(1) by (rule well_formed_register)
    have "(if loc_id x = lid then x\<lparr>is_occupied := True\<rparr> else x)
            \<in> set (set_occupied lid True (Locations d))"
      using less.prems(2) by (rule in_set_occupied)
    with False have x1: "x \<in> set (Locations d1)" by (simp add: lc)
    have "length (filter P (map (\<lambda>l. if loc_id l = lid then l\<lparr>is_occupied := True\<rparr> else l)
                               (Locations d)))
            < length (filter P (Locations d))"
      using x0 by (intro filter_map_less [where x = x0]) (auto simp: P_def split: if_splits)
    then have "length (filter (\<lambda>l. loc_category_id l = loc_category_id x \<and> \<not> is_occupied l)
                          (Locations d1))
               < length (filter (\<lambda>l. loc_category_id l = loc_category_id x \<and> \<not> is_occupied l)
                          (Locations d))"
      unfolding lc set_occupied_def P_def c_def .
    from less.hyps [OF this wf1 x1 less.prems(3)] obtain ops q where
      r: "list_all is_register ops" "q \<in> set (Packages (run ops d1))"
        "pkg_barcode q \<notin> set (map pkg_barcode (Packages d1))"
        "pkg_status q = ''Stored''" "pkg_location_id q = Some (loc_id x)"
      by blast
    have "list_all is_register (?op # ops)" using r(1) by simp
    moreover have "q \<in> set (Packages (run (?op # ops) d))"
      unfolding run_Cons ex using r(2) .
    moreover have "pkg_barcode q \<notin> set (map pkg_barcode (Packages d))"
      using r(3) by (simp add: pk)
    ultimately show ?thesis using r(4,5) by blast
  qed
qed

lemma lower_Delivered: "lower ''Delivered'' = ''delivered''"
  by code_simp

lemma heavy_package_stored:
  "map package_summary
     (Packages (run [Register ''000000000001'' (Finite 60.0) (Finite 60) (Finite 50) (Finite 40)
                       ''Houston, USA'' ''Standard''] initial_db))
     = [(''000000000001'', ''Stored'', Some 61)]"
  by code_simp

text \<open>
  Claim C3, as stated: delivering a \<^verbatim>\<open>Stored\<close> package frees its location and sets the
  package's location reference to absent. In the scenario of the specification (barcode
  \<^verbatim>\<open>000000000001\<close>, weight 60, destination \<^verbatim>\<open>Houston, USA\<close>) the package is stored
  at location 61, and after delivery its row still names location 61.
\<close>

theorem delivery_keeps_reference_counterexample:
  "map package_summary
     (Packages (run [Register ''000000000001'' (Finite 60.0) (Finite 60) (Finite 50) (Finite 40)
                       ''Houston, USA'' ''Standard''] initial_db))
     = [(''000000000001'', ''Stored'', Some 61)]
   \<and> fst (update_package_status
            (run [Register ''000000000001'' (Finite 60.0) (Finite 60) (Finite 50) (Finite 40)
                    ''Houston, USA'' ''Standard''] initial_db)
            ''000000000001'' ''Delivered'') = Inr ()
   \<and> map package_summary
        (Packages (snd (update_package_status
            (run [Register ''000000000001'' (Finite 60.0) (Finite 60) (Finite 50) (Finite 40)
                    ''Houston, USA'' ''Standard''] initial_db)
            ''000000000001'' ''Delivered'')))
     = [(''000000000001'', ''Delivered'', Some 61)]"
proof -
  let ?s = "run [Register ''000000000001'' (Finite 60.0) (Finite 60) (Finite 50) (Finite 40)
                    ''Houston, USA'' ''Standard''] initial_db"
  have 1: "map package_summary (Packages ?s) = [(''000000000001'', ''Stored'', Some 61)]"
    by (rule heavy_package_stored)
  have 2: "map package_summary
        (Packages (snd (update_package_status ?s ''000000000001'' ''Delivered'')))
     = [(''000000000001'', ''Delivered'', Some 61)]"
    by code_simp
  have "reachable ?s" by (rule reachable_run) (rule reachable.init)
  then have wf: "well_formed ?s" by (rule reachable_well_formed)
  have "map (fst \<circ> package_summary) (Packages ?s) = [''000000000001'']"
    unfolding map_map [symmetric] 1 by simp
  moreover have "fst \<circ> package_summary = pkg_barcode"
    by (auto simp: package_summary_def)
  ultimately have "''000000000001'' \<in> set (map pkg_barcode (Packages ?s))" by simp
  then have 3: "fst (update_package_status ?s ''000000000001'' ''Delivered'') = Inr ()"
    using search_package_None_iff [OF wf, of "''000000000001''"]
    by (simp add: update_success_iff)
  from 1 2 3 show ?thesis by simp
qed

text \<open>
  Claim C3, amended. In every reachable state, for every package with status
  \<^verbatim>\<open>Stored\<close>: the package has a location; the update to \<^verbatim>\<open>Delivered\<close> succeeds; after
  it the location is still a row of the table and is not occupied; the package has status
  \<^verbatim>\<open>Delivered\<close> and still names the location; and some sequence of further registrations
  assigns this location to a newly registered package.
\<close>

theorem delivery_releases_location:
  assumes "reachable d" and "p \<in> set (Packages d)" and "pkg_status p = ''Stored''"
  shows "\<exists>lid. pkg_location_id p = Some lid
           \<and> fst (update_package_status d (pkg_barcode p) ''Delivered'') = Inr ()
           \<and> (let d' = snd (update_package_status d (pkg_barcode p) ''Delivered'') in
                lid \<in> set (map loc_id (Locations d'))
                \<and> (\<forall>l \<in> set (Locations d'). loc_id l = lid \<longrightarrow> \<not> is_occupied l)
                \<and> pkg_barcode p \<in> set (map pkg_barcode (Packages d'))
                \<and> (\<forall>q \<in> set (Packages d'). pkg_barcode q = pkg_barcode p \<longrightarrow>
                      pkg_status q = ''Delivered'' \<and> pkg_location_id q = Some lid)
                \<and> (\<exists>ops q. list_all is_register ops \<and> q \<in> set (Packages (run ops d'))
                      \<and> pkg_barcode q \<notin> set (map pkg_barcode (Packages d'))
                      \<and> pkg_status q = ''Stored'' \<and> pkg_location_id q = Some lid))"
proof -
  define b where "b = pkg_barcode p"
  define d' where "d' = snd (update_package_status d b ''Delivered'')"
  define f :: "package \<Rightarrow> package"
    where "f = (\<lambda>q. if pkg_barcode q = b then q\<lparr>pkg_status := ''Delivered''\<rparr> else q)"
  have wf: "well_formed d" using assms(1) by (rule reachable_well_formed)
  have db: "distinct (map pkg_barcode (Packages d))"
    using wf unfolding well_formed_def by blast
  from wf assms(2) obtain lid where
    lid: "pkg_location_id p = Some lid" "lid \<in> set (map loc_id (Locations d))"
    unfolding well_formed_def by blast
  have bin: "b \<in> set (map pkg_barcode (Packages d))"
    using assms(2) by (simp add: b_def)
  then have ok: "fst (update_package_status d b ''Delivered'') = Inr ()"
    using search_package_None_iff [OF wf, of b] by (simp add: update_success_iff)
  have only: "q = p" if "q \<in> set (Packages d)" "pkg_barcode q = b" for q
    using db that assms(2) by (auto simp: distinct_map b_def dest: inj_onD)
  from bin obtain pb where fb: "find (\<lambda>q. pkg_barcode q = b) (Packages d) = Some pb"
    by (cases "find (\<lambda>q. pkg_barcode q = b) (Packages d)") (auto simp: find_None_iff)
  then have "pb \<in> set (Packages d)" "pkg_barcode pb = b" by (auto simp: find_Some_iff)
  then have "pb = p" by (rule only)
  with lid(1) have "pkg_location_id pb = Some lid" by simp
  with ok lower_Delivered fb have lc: "Locations d' = set_occupied lid False (Locations d)"
    unfolding d'_def by (rule Locations_update_delivered)
  have pk: "Packages d' = map f (Packages d)"
    unfolding d'_def f_def by (rule Packages_update [OF ok])
  have 1: "lid \<in> set (map loc_id (Locations d'))"
    using lid(2) unfolding lc by simp
  have 2: "\<not> is_occupied l" if "l \<in> set (Locations d')" "loc_id l = lid" for l
  proof -
    from that(1) obtain l0 where
      "l = (if loc_id l0 = lid then l0\<lparr>is_occupied := False\<rparr> else l0)"
      unfolding lc by (auto dest: set_occupied_origin)
    with that(2) show ?thesis by (cases "loc_id l0 = lid") simp_all
  qed
  have bc: "map pkg_barcode (map f (Packages d)) = map pkg_barcode (Packages d)"
    by (simp add: f_def)
  have 3: "b \<in> set (map pkg_barcode (Packages d'))"
    unfolding pk bc using bin .
  have 4: "pkg_status q = ''Delivered'' \<and> pkg_location_id q = Some lid"
    if "q \<in> set (Packages d')" "pkg_barcode q = b" for q
  proof -
    from that(1) obtain q0 where q0: "q0 \<in> set (Packages d)" "q = f q0"
      unfolding pk by (auto simp only: set_map image_iff)
    with that(2) have "pkg_barcode q0 = b" by (simp add: f_def split: if_splits)
    with q0(1) have "q0 = p" by (rule only)
    with q0(2) lid(1) show ?thesis by (simp add: f_def b_def)
  qed
  have wf': "well_formed d'"
    unfolding d'_def using wf by (rule well_formed_update)
  from 1 obtain x where x: "x \<in> set (Locations d')" "loc_id x = lid" by auto
  from reuse_free_location [OF wf' x(1) 2 [OF x]] x(2) have
    5: "\<exists>ops q. list_all is_register ops \<and> q \<in> set (Packages (run ops d'))
           \<and> pkg_barcode q \<notin> set (map pkg_barcode (Packages d'))
           \<and> pkg_status q = ''Stored'' \<and> pkg_location_id q = Some lid"
    by simp
  show ?thesis
    unfolding Let_def b_def [symmetric] d'_def [symmetric]
    using lid(1) ok 1 2 3 4 5 by blast
qed

theorem delivery_releases_location_witness:
  "reachable (run [Register ''000000000001'' (Finite 60.0) (Finite 60) (Finite 50) (Finite 40)
                     ''Houston, USA'' ''Standard''] initial_db)
   \<and> hd (Packages (run [Register ''000000000001'' (Finite 60.0) (Finite 60) (Finite 50)
                           (Finite 40) ''Houston, USA'' ''Standard''] initial_db))
       \<in> set (Packages (run [Register ''000000000001'' (Finite 60.0) (Finite 60) (Finite 50)
                               (Finite 40) ''Houston, USA'' ''Standard''] initial_db))
   \<and> package_summary
        (hd (Packages (run [Register ''000000000001'' (Finite 60.0) (Finite 60) (Finite 50)
                              (Finite 40) ''Houston, USA'' ''Standard''] initial_db)))
      = (''000000000001'', ''Stored'', Some 61)
   \<and> fst (update_package_status
            (run [Register ''000000000001'' (Finite 60.0) (Finite 60) (Finite 50) (Finite 40)
                    ''Houston, USA'' ''Standard''] initial_db)
            ''000000000001'' ''Delivered'') = Inr ()
   \<and> (\<exists>ops q. list_all is_register ops
         \<and> q \<in> set (Packages (run ops (snd (update_package_status
              (run [Register ''000000000001'' (Finite 60.0) (Finite 60) (Finite 50) (Finite 40)
                      ''Houston, USA'' ''Standard''] initial_db)
              ''000000000001'' ''Delivered''))))
         \<and> pkg_barcode q \<noteq> ''000000000001''
         \<and> pkg_status q = ''Stored'' \<and> pkg_location_id q = Some 61)"
proof -
  let ?s = "run [Register ''000000000001'' (Finite 60.0) (Finite 60) (Finite 50) (Finite 40)
                    ''Houston, USA'' ''Standard''] initial_db"
  have r: "reachable ?s" by (rule reachable_run) (rule reachable.init)
  have ne: "Packages ?s \<noteq> []"
    using heavy_package_stored by auto
  then have m: "hd (Packages ?s) \<in> set (Packages ?s)" by simp
  have "hd (map package_summary (Packages ?s)) = (''000000000001'', ''Stored'', Some 61)"
    unfolding heavy_package_stored by simp
  then have s: "package_summary (hd (Packages ?s)) = (''000000000001'', ''Stored'', Some 61)"
    using ne by (simp add: hd_map)
  then have st: "pkg_status (hd (Packages ?s)) = ''Stored''"
    and bc: "pkg_barcode (hd (Packages ?s)) = ''000000000001''"
    and lo: "pkg_location_id (hd (Packages ?s)) = Some 61"
    by (simp_all add: package_summary_def)
  from delivery_releases_location [OF r m st] obtain lid where
    c: "pkg_location_id (hd (Packages ?s)) = Some lid"
      "fst (update_package_status ?s (pkg_barcode (hd (Packages ?s))) ''Delivered'') = Inr ()"
      "pkg_barcode (hd (Packages ?s))
         \<in> set (map pkg_barcode
                  (Packages (snd (update_package_status ?s (pkg_barcode (hd (Packages ?s)))
                                    ''Delivered''))))"
      "\<exists>ops q. list_all is_register ops
         \<and> q \<in> set (Packages (run ops (snd (update_package_status ?s
                    (pkg_barcode (hd (Packages ?s))) ''Delivered''))))
         \<and> pkg_barcode q \<notin> set (map pkg_barcode
               (Packages (snd (update_package_status ?s (pkg_barcode (hd (Packages ?s)))
                                 ''Delivered''))))
         \<and> pkg_status q = ''Stored'' \<and> pkg_location_id q = Some lid"
    unfolding Let_def by blast
  from c(1) lo have "lid = 61" by simp
  from c(4) obtain ops q where
    q: "list_all is_register ops"
      "q \<in> set (Packages (run ops (snd (update_package_status ?s
                    (pkg_barcode (hd (Packages ?s))) ''Delivered''))))"
      "pkg_barcode q \<notin> set (map pkg_barcode
               (Packages (snd (update_package_status ?s (pkg_barcode (hd (Packages ?s)))
                                 ''Delivered''))))"
      "pkg_status q = ''Stored''" "pkg_location_id q = Some lid"
    by blast
  from q(3) c(3) have "pkg_barcode q \<noteq> pkg_barcode (hd (Packages ?s))" by metis
  with q(1,2,4,5) have
    "\<exists>ops q. list_all is_register ops
         \<and> q \<in> set (Packages (run ops (snd (update_package_status ?s
                    ''000000000001'' ''Delivered''))))
         \<and> pkg_barcode q \<noteq> ''000000000001''
         \<and> pkg_status q = ''Stored'' \<and> pkg_location_id q = Some 61"
    unfolding bc \<open>lid = 61\<close> by blast
  with r m s c(2) show ?thesis unfolding bc by blast
qed

end
